theory Spec2Isabelle
  imports Main
begin

section \<open>Python values used by the migration scripts\<close>

text \<open>
  The three scripts (\<^verbatim>\<open>get_categories_wordpress.py\<close>, \<^verbatim>\<open>create_folders.py\<close>,
  \<^verbatim>\<open>create_news.py\<close>) are sequences of HTTP calls, string operations and reads and
  writes of JSON files. Strings are \<^typ>\<open>string\<close>, one \<^typ>\<open>char\<close> for each character
  of the Python \<^verbatim>\<open>str\<close>. Exceptions are values of \<open>exn\<close>; a function that can raise
  returns \<open>exn + 'a\<close> with \<open>Inl\<close> for the exception.
\<close>

datatype exn =
    ValueError              \<comment> \<open>\<^verbatim>\<open>raise ValueError(...)\<close> in \<^verbatim>\<open>sanitize_folder_title\<close>\<close>
  | ConnectionError         \<comment> \<open>\<^verbatim>\<open>requests.get\<close>/\<^verbatim>\<open>post\<close> raised: a \<^verbatim>\<open>RequestException\<close>\<close>
  | HTTPError nat           \<comment> \<open>\<^verbatim>\<open>raise_for_status()\<close> on a 4xx or 5xx status\<close>
  | KeyError                \<comment> \<open>the decoded body lacks the key that is read\<close>
  | JSONDecodeError         \<comment> \<open>\<^verbatim>\<open>json.load\<close> or \<^verbatim>\<open>response.json()\<close> on what is not JSON\<close>
  | TypeError               \<comment> \<open>a loop over, or an index into, a value that has none\<close>
  | AttributeError          \<comment> \<open>\<^verbatim>\<open>.append\<close> on a value that is not a list\<close>
  | FetchError nat          \<comment> \<open>\<^verbatim>\<open>raise Exception(f"Erro ao acessar o JSON: ...")\<close>\<close>

text \<open>\<^verbatim>\<open>except requests.exceptions.HTTPError\<close> and
  \<^verbatim>\<open>except requests.exceptions.RequestException\<close>.\<close>

fun is_HTTPError :: "exn \<Rightarrow> bool" where
  "is_HTTPError (HTTPError _) = True"
| "is_HTTPError _ = False"

fun is_RequestException :: "exn \<Rightarrow> bool" where
  "is_RequestException ConnectionError = True"
| "is_RequestException (HTTPError _) = True"
| "is_RequestException _ = False"

subsection \<open>String methods\<close>

text \<open>\<^verbatim>\<open>s.replace(old, new)\<close>: every non-overlapping occurrence of \<open>old\<close>, from the left.
  With an empty \<open>old\<close> Python puts \<open>new\<close> before every character and at the end.\<close>

function str_replace :: "string \<Rightarrow> string \<Rightarrow> string \<Rightarrow> string" where
  "str_replace old new s =
     (if old = [] then new @ concat (map (\<lambda>c. c # new) s)
      else if s = [] then []
      else if take (length old) s = old
        then new @ str_replace old new (drop (length old) s)
      else hd s # str_replace old new (tl s))"
  by pat_completeness auto
termination
  by (relation "measure (\<lambda>(old, new, s). length s)") auto

declare str_replace.simps [simp del]

text \<open>\<^verbatim>\<open>s.endswith(suffix)\<close>.\<close>

definition endswith :: "string \<Rightarrow> string \<Rightarrow> bool" where
  "endswith s suffix \<longleftrightarrow>
     length suffix \<le> length s \<and> drop (length s - length suffix) s = suffix"

text \<open>\<^verbatim>\<open>s.lower()\<close> on the letters A to Z. No character outside ASCII has a letter of a
  reserved folder name as its lower case, so membership in \<open>reserved_names\<close> is decided
  as in Python.\<close>

definition char_lower :: "char \<Rightarrow> char" where
  "char_lower c =
     (let n = (of_char c :: nat) in if 65 \<le> n \<and> n \<le> 90 then char_of (n + 32) else c)"

definition lower :: "string \<Rightarrow> string" where
  "lower s = map char_lower s"

text \<open>\<^verbatim>\<open>s.strip()\<close> is empty exactly when every character of \<open>s\<close> is white space.\<close>

definition is_space :: "char \<Rightarrow> bool" where
  "is_space c \<longleftrightarrow> (of_char c :: nat) \<in> {9, 10, 11, 12, 13, 28, 29, 30, 31, 32, 133, 160}"

definition strip_is_empty :: "string \<Rightarrow> bool" where
  "strip_is_empty s \<longleftrightarrow> list_all is_space s"

text \<open>\<^verbatim>\<open>f"{counter}"\<close>: the decimal digits of a natural number.\<close>

definition digit_char :: "nat \<Rightarrow> char" where
  "digit_char d = char_of (48 + d)"

fun str_nat :: "nat \<Rightarrow> string" where
  "str_nat n = (if n < 10 then [digit_char n] else str_nat (n div 10) @ [digit_char (n mod 10)])"

declare str_nat.simps [simp del]

section \<open>Image migrator: \<^verbatim>\<open>create_folders.py\<close>\<close>

subsection \<open>\<^verbatim>\<open>sanitize_folder_title\<close>\<close>

definition reserved_names :: "string list" where
  "reserved_names =
     [''null'', ''con'', ''prn'', ''aux'', ''nul'', ''com1'', ''com2'', ''com3'', ''com4'', ''com5'',
      ''com6'', ''com7'', ''com8'', ''com9'', ''lpt1'', ''lpt2'', ''lpt3'', ''lpt4'', ''lpt5'',
      ''lpt6'', ''lpt7'', ''lpt8'', ''lpt9'']"

text \<open>\<^verbatim>\<open>invalid_chars = r'<>:"/\\|?*'\<close>: a raw string, so the backslash is there twice.\<close>

definition invalid_chars :: string where
  "invalid_chars =
     [CHR ''<'', CHR ''>'', CHR '':'', CHR 0x22, CHR ''/'', CHR 0x5C, CHR 0x5C,
      CHR ''|'', CHR ''?'', CHR ''*'']"

text \<open>\<^verbatim>\<open>for char in invalid_chars: title = title.replace(char, "")\<close>.\<close>

definition remove_invalid_chars :: "string \<Rightarrow> string" where
  "remove_invalid_chars title = fold (\<lambda>char t. str_replace [char] [] t) invalid_chars title"

text \<open>\<^verbatim>\<open>if title.endswith(".."): title = title[:-2]\<close>.\<close>

definition drop_trailing_dots :: "string \<Rightarrow> string" where
  "drop_trailing_dots title =
     (if endswith title ''..'' then take (length title - 2) title else title)"

text \<open>\<^verbatim>\<open>title.replace("../", "").replace("/...", "")\<close>.\<close>

definition remove_path_sequences :: "string \<Rightarrow> string" where
  "remove_path_sequences title = str_replace ''/...'' [] (str_replace ''../'' [] title)"

text \<open>The title as it stands when the reserved words are looked up.\<close>

definition stripped_title :: "string \<Rightarrow> string" where
  "stripped_title title = remove_path_sequences (drop_trailing_dots (remove_invalid_chars title))"

definition sanitize_folder_title :: "string \<Rightarrow> exn + string" where
  "sanitize_folder_title title =
     (if title = [] then Inl ValueError
      else
        let t = stripped_title title;
            t = (if lower t \<in> set reserved_names then t @ ''_safe'' else t)
        in Inr (take 255 t))"

subsection \<open>\<^verbatim>\<open>generate_unique_name\<close>\<close>

text \<open>The loop tries \<open>base_name\<close>, then \<open>base_name_1\<close>, \<open>base_name_2\<close>, ... until the name is
  not among the existing ones. It ends because the decimal numerals are pairwise different,
  so only finitely many of the candidates are existing names.\<close>

definition digit_val :: "char \<Rightarrow> nat" where
  "digit_val c = of_char c - 48"

lemma digit_val_digit_char: "d < 10 \<Longrightarrow> digit_val (digit_char d) = d"
  by (simp add: digit_val_def digit_char_def)

lemma nat_of_str_nat: "foldl (\<lambda>a c. 10 * a + digit_val c) 0 (str_nat n) = n"
proof (induction n rule: str_nat.induct)
  case (1 n)
  show ?case
  proof (cases "n < 10")
    case True
    then show ?thesis by (subst str_nat.simps) (simp add: digit_val_digit_char)
  next
    case False
    then show ?thesis
      using "1.IH" by (subst str_nat.simps) (simp add: digit_val_digit_char)
  qed
qed

lemma inj_str_nat: "inj str_nat"
  by (rule inj_on_inverseI[where g = "foldl (\<lambda>a c. 10 * a + digit_val c) 0"]) (rule nat_of_str_nat)

lemma finite_suffixed: "finite {k. base @ ''_'' @ str_nat k \<in> set names}"
proof -
  have "inj (\<lambda>k. base @ ''_'' @ str_nat k)"
    using inj_str_nat by (auto simp: inj_def)
  then have "finite ((\<lambda>k. base @ ''_'' @ str_nat k) -` set names)"
    by (intro finite_vimageI) simp_all
  then show ?thesis by (simp add: vimage_def)
qed

text \<open>
  \<^verbatim>\<open>
  counter = 1
  new_name = base_name
  while new_name in existing_names:
      new_name = f"{base_name}_{counter}"
      counter += 1
  return new_name
  \<close>
\<close>

function unique_name_loop :: "string \<Rightarrow> string list \<Rightarrow> nat \<Rightarrow> string \<Rightarrow> string" where
  "unique_name_loop base_name existing_names counter new_name =
     (if new_name \<in> set existing_names
      then unique_name_loop base_name existing_names (counter + 1)
             (base_name @ ''_'' @ str_nat counter)
      else new_name)"
  by pat_completeness auto
termination
proof (relation "measure (\<lambda>(base_name, existing_names, counter, new_name).
          2 * card {k. counter \<le> k \<and> base_name @ ''_'' @ str_nat k \<in> set existing_names}
          + (if new_name \<in> set existing_names then 1 else 0))", goal_cases)
  case 1
  show ?case by simp
next
  case (2 base_name existing_names counter new_name)
  let ?S = "\<lambda>c. {k. c \<le> k \<and> base_name @ ''_'' @ str_nat k \<in> set existing_names}"
  have fin: "finite (?S counter)"
    using finite_suffixed[of base_name existing_names] by (rule rev_finite_subset) auto
  show ?case
  proof (cases "base_name @ ''_'' @ str_nat counter \<in> set existing_names")
    case True
    have eq: "?S (counter + 1) = ?S counter - {counter}" by auto
    have mem: "counter \<in> ?S counter" using True by simp
    have "card (?S (counter + 1)) < card (?S counter)"
      unfolding eq using fin mem by (rule card_Diff1_less)
    then show ?thesis using 2 True by simp
  next
    case False
    have "?S (counter + 1) = ?S counter"
      using False by (auto simp: le_Suc_eq Suc_le_eq) (metis le_neq_implies_less)
    then show ?thesis using 2 False by simp
  qed
qed

declare unique_name_loop.simps [simp del]

definition generate_unique_name :: "string \<Rightarrow> string list \<Rightarrow> string" where
  "generate_unique_name base_name existing_names =
     unique_name_loop base_name existing_names 1 base_name"

subsection \<open>The destination's document folders\<close>

text \<open>
  Liferay is outside the repository. It is a parameter: a state \<open>'w\<close> and, for each
  request the scripts send, a function that answers from the state and gives the next
  state. An answer is \<open>Unreachable\<close> when \<^verbatim>\<open>requests\<close> raises instead of returning, or a
  status code with the decoded body. For the folder requests the body is \<open>None\<close> when
  \<^verbatim>\<open>response.json()\<close> or the key read from it raises; the items of a listing are those
  of \<^verbatim>\<open>data.get("items", [])\<close>. The bodies of the content requests are taken as decoded:
  the ids of the items found, and the \<^verbatim>\<open>friendlyUrlPath\<close> of a created content when the
  answer has one.
\<close>

datatype 'a response = Unreachable | Response nat 'a

record folder =
  folder_id :: nat
  folder_name :: string

text \<open>Where document folders are listed and created: directly under a site
  (\<^verbatim>\<open>/sites/{site_id}/document-folders\<close>) or under a folder
  (\<^verbatim>\<open>/document-folders/{parent_folder_id}/document-folders\<close>).\<close>

datatype container = Site nat | Document_folder nat

record content_field =
  field_name :: string
  field_data :: string

text \<open>The payload of a content creation; \<^verbatim>\<open>contentStructureId\<close> is a constant of the
  configuration and is left out.\<close>

record content_payload =
  payload_title :: string                    \<comment> \<open>\<^verbatim>\<open>title\<close>\<close>
  payload_friendly_url :: string             \<comment> \<open>\<^verbatim>\<open>friendlyUrlPath\<close>\<close>
  payload_date_created :: "string option"    \<comment> \<open>\<^verbatim>\<open>dateCreated\<close>\<close>
  payload_category_ids :: "nat list"         \<comment> \<open>\<^verbatim>\<open>taxonomyCategoryIds\<close>\<close>
  payload_fields :: "content_field list"     \<comment> \<open>\<^verbatim>\<open>contentFields\<close>\<close>

record 'w liferay =
  get_document_folders :: "container \<Rightarrow> 'w \<Rightarrow> folder list option response \<times> 'w"
    \<comment> \<open>\<^verbatim>\<open>GET .../document-folders\<close>\<close>
  post_document_folder :: "container \<Rightarrow> string \<Rightarrow> string \<Rightarrow> 'w \<Rightarrow> nat option response \<times> 'w"
    \<comment> \<open>\<^verbatim>\<open>POST .../document-folders\<close> with name and description\<close>
  get_structured_contents :: "string \<Rightarrow> 'w \<Rightarrow> nat list response \<times> 'w"
    \<comment> \<open>\<^verbatim>\<open>GET /structured-contents?filter=friendlyUrlPath eq '...'\<close>: the ids of the items\<close>
  patch_structured_content :: "nat \<Rightarrow> content_field list \<Rightarrow> 'w \<Rightarrow> unit response \<times> 'w"
    \<comment> \<open>\<^verbatim>\<open>PATCH /structured-contents/{id}\<close> with the \<^verbatim>\<open>contentFields\<close> of the payload\<close>
  post_structured_content :: "content_payload \<Rightarrow> 'w \<Rightarrow> string option response \<times> 'w"
    \<comment> \<open>\<^verbatim>\<open>POST /sites/{site}/structured-contents\<close>: the \<^verbatim>\<open>friendlyUrlPath\<close> of the answer\<close>

text \<open>\<^verbatim>\<open>response.raise_for_status()\<close>.\<close>

definition raise_for_status :: "nat \<Rightarrow> exn + unit" where
  "raise_for_status status = (if 400 \<le> status \<and> status < 600 then Inl (HTTPError status) else Inr ())"

subsection \<open>\<^verbatim>\<open>create_or_get_folder_in_liferay\<close>\<close>

text \<open>The folder of a category, directly under the site. The title is sanitized before
  the \<^verbatim>\<open>try\<close>; both handlers log and raise again, so every exception leaves the function.
  The second component of the state is the global counter \<^verbatim>\<open>folders_created\<close>.\<close>

definition create_or_get_folder_in_liferay ::
  "'w liferay \<Rightarrow> string \<Rightarrow> nat \<Rightarrow> 'w \<times> nat \<Rightarrow> (exn + nat) \<times> ('w \<times> nat)" where
  "create_or_get_folder_in_liferay L title site_id state =
     (case state of (w, folders_created) \<Rightarrow>
        case sanitize_folder_title title of
          Inl e \<Rightarrow> (Inl e, (w, folders_created))
        | Inr sanitized_title \<Rightarrow>
           (case get_document_folders L (Site site_id) w of
              (Unreachable, w') \<Rightarrow> (Inl ConnectionError, (w', folders_created))
            | (Response status body, w') \<Rightarrow>
               (case raise_for_status status of
                  Inl e \<Rightarrow> (Inl e, (w', folders_created))
                | Inr _ \<Rightarrow>
                   (case body of
                      None \<Rightarrow> (Inl JSONDecodeError, (w', folders_created))
                    | Some folders \<Rightarrow>
                       (case find (\<lambda>folder. folder_name folder = sanitized_title) folders of
                          Some folder \<Rightarrow> (Inr (folder_id folder), (w', folders_created))
                        | None \<Rightarrow>
                           (case post_document_folder L (Site site_id) sanitized_title
                                   (''Pasta para '' @ sanitized_title) w' of
                              (Unreachable, w'') \<Rightarrow> (Inl ConnectionError, (w'', folders_created))
                            | (Response status' body', w'') \<Rightarrow>
                               (case raise_for_status status' of
                                  Inl e \<Rightarrow> (Inl e, (w'', folders_created))
                                | Inr _ \<Rightarrow>
                                   (case body' of
                                      None \<Rightarrow> (Inl KeyError, (w'', folders_created))
                                    | Some new_id \<Rightarrow>
                                        (Inr new_id, (w'', folders_created + 1))))))))))"

subsection \<open>\<^verbatim>\<open>create_or_get_subfolder\<close>\<close>

text \<open>\<^verbatim>\<open>if not subfolder_name.strip(): subfolder_name = "SEM TITULO"\<close>.\<close>

definition subfolder_title :: "string \<Rightarrow> string" where
  "subfolder_title subfolder_name =
     (if strip_is_empty subfolder_name then ''SEM TITULO'' else subfolder_name)"

text \<open>The \<^verbatim>\<open>POST\<close> of the payload, \<^verbatim>\<open>raise_for_status()\<close> and \<^verbatim>\<open>response.json()["id"]\<close>:
  the same lines in the first attempt and in the retry.\<close>

definition post_subfolder :: "'w liferay \<Rightarrow> nat \<Rightarrow> string \<Rightarrow> 'w \<Rightarrow> (exn + nat) \<times> 'w" where
  "post_subfolder L parent_folder_id unique_name w =
     (case post_document_folder L (Document_folder parent_folder_id) unique_name
             (''Subpasta para '' @ unique_name) w of
        (Unreachable, w') \<Rightarrow> (Inl ConnectionError, w')
      | (Response status body, w') \<Rightarrow>
          (case raise_for_status status of
             Inl e \<Rightarrow> (Inl e, w')
           | Inr _ \<Rightarrow>
              (case body of
                 None \<Rightarrow> (Inl KeyError, w')
               | Some new_id \<Rightarrow> (Inr new_id, w'))))"

text \<open>The body of the outer \<^verbatim>\<open>try\<close>: list the subfolders, generate the unique name, look
  for a folder of that name, create it when there is none.\<close>

definition subfolder_attempt :: "'w liferay \<Rightarrow> nat \<Rightarrow> string \<Rightarrow> 'w \<Rightarrow> (exn + nat) \<times> 'w" where
  "subfolder_attempt L parent_folder_id sanitized_title w =
     (case get_document_folders L (Document_folder parent_folder_id) w of
        (Unreachable, w') \<Rightarrow> (Inl ConnectionError, w')
      | (Response status body, w') \<Rightarrow>
          (case raise_for_status status of
             Inl e \<Rightarrow> (Inl e, w')
           | Inr _ \<Rightarrow>
              (case body of
                 None \<Rightarrow> (Inl JSONDecodeError, w')
               | Some items \<Rightarrow>
                   let existing_names = map folder_name items;
                       unique_name = generate_unique_name sanitized_title existing_names
                   in (case find (\<lambda>folder. folder_name folder = unique_name) items of
                         Some folder \<Rightarrow> (Inr (folder_id folder), w')
                       | None \<Rightarrow> post_subfolder L parent_folder_id unique_name w'))))"

text \<open>The \<^verbatim>\<open>try\<close> inside the \<^verbatim>\<open>HTTPError\<close> handler: list again (the status is not
  checked here), generate the name, create.\<close>

definition subfolder_retry :: "'w liferay \<Rightarrow> nat \<Rightarrow> string \<Rightarrow> 'w \<Rightarrow> (exn + nat) \<times> 'w" where
  "subfolder_retry L parent_folder_id sanitized_title w =
     (case get_document_folders L (Document_folder parent_folder_id) w of
        (Unreachable, w') \<Rightarrow> (Inl ConnectionError, w')
      | (Response status body, w') \<Rightarrow>
          (case body of
             None \<Rightarrow> (Inl JSONDecodeError, w')
           | Some items \<Rightarrow>
               post_subfolder L parent_folder_id
                 (generate_unique_name sanitized_title (map folder_name items)) w'))"

text \<open>\<^verbatim>\<open>sanitize_folder_title\<close> is called before the \<^verbatim>\<open>try\<close>, so its exception would
  leave the function. An \<^verbatim>\<open>HTTPError\<close> of the first attempt starts the retry, whose every
  exception gives the parent's id; every other exception of the first attempt gives the
  parent's id at once.\<close>

definition create_or_get_subfolder :: "'w liferay \<Rightarrow> nat \<Rightarrow> string \<Rightarrow> 'w \<Rightarrow> (exn + nat) \<times> 'w" where
  "create_or_get_subfolder L parent_folder_id subfolder_name w =
     (case sanitize_folder_title (subfolder_title subfolder_name) of
        Inl e \<Rightarrow> (Inl e, w)
      | Inr sanitized_title \<Rightarrow>
          (case subfolder_attempt L parent_folder_id sanitized_title w of
             (Inr new_id, w') \<Rightarrow> (Inr new_id, w')
           | (Inl e, w') \<Rightarrow>
               if is_HTTPError e then
                 (case subfolder_retry L parent_folder_id sanitized_title w' of
                    (Inr new_id, w'') \<Rightarrow> (Inr new_id, w'')
                  | (Inl retry_error, w'') \<Rightarrow> (Inr parent_folder_id, w''))
               else (Inr parent_folder_id, w')))"

text \<open>A destination that keeps the folders it is asked to create: a listing answers 200
  with the subfolders of the parent, a creation answers 409 when a sibling has the name
  and otherwise 201 with a new id.\<close>

record store =
  folders :: "(container \<times> folder) list"   \<comment> \<open>parent and folder, oldest first\<close>
  next_id :: nat

definition subfolders_of :: "store \<Rightarrow> container \<Rightarrow> folder list" where
  "subfolders_of w parent = map snd (filter (\<lambda>(p, f). p = parent) (folders w))"

definition folder_store :: "store liferay" where
  "folder_store =
     \<lparr> get_document_folders = (\<lambda>parent w. (Response 200 (Some (subfolders_of w parent)), w)),
       post_document_folder = (\<lambda>parent name description w.
          if name \<in> set (map folder_name (subfolders_of w parent))
          then (Response 409 None, w)
          else (Response 201 (Some (next_id w)),
                w\<lparr> folders := folders w @ [(parent, \<lparr>folder_id = next_id w, folder_name = name\<rparr>)],
                   next_id := next_id w + 1 \<rparr>)),
       get_structured_contents = (\<lambda>friendly_url w. (Response 200 [], w)),
       patch_structured_content = (\<lambda>content_id fields w. (Response 404 (), w)),
       post_structured_content = (\<lambda>payload w. (Response 404 None, w)) \<rparr>"

text \<open>A destination that answers every request with status 500 and counts the requests.\<close>

definition failing_liferay :: "nat liferay" where
  "failing_liferay =
     \<lparr> get_document_folders = (\<lambda>parent n. (Response 500 (Some []), n + 1)),
       post_document_folder = (\<lambda>parent name description n. (Response 500 None, n + 1)),
       get_structured_contents = (\<lambda>friendly_url n. (Response 500 [], n + 1)),
       patch_structured_content = (\<lambda>content_id fields n. (Response 500 (), n + 1)),
       post_structured_content = (\<lambda>payload n. (Response 500 None, n + 1)) \<rparr>"

section \<open>The WordPress source\<close>

text \<open>
  WordPress is outside the repository and is only read. It is a parameter: a function
  from the request to the answer. The payload of an answer is the integer of the
  \<^verbatim>\<open>X-WP-TotalPages\<close> header, when the header is there, and the list that
  \<^verbatim>\<open>response.json()\<close> decodes; an answer whose body is not a JSON list is not among
  the answers described here.

  The loops below are \<^verbatim>\<open>while True\<close> loops that end on what the source answers, so they
  are partial functions: \<open>None\<close> stands for a run that never ends. Beside the result,
  each gives the requests it sent, in order; the scripts do not return these, they are
  kept for the statements about what is requested.
\<close>

type_synonym 'a wp_page = "int option \<times> 'a list"

datatype posts_query =
  Posts_query "nat option" nat "nat option"
    \<comment> \<open>\<^verbatim>\<open>/posts?categories=..&per_page=..&page=..\<close>; \<open>None\<close> for a parameter left out\<close>

type_synonym 'a posts_api = "posts_query \<Rightarrow> 'a wp_page response"

type_synonym 'a categories_api = "nat \<Rightarrow> nat \<Rightarrow> 'a wp_page response"
  \<comment> \<open>\<^verbatim>\<open>requests.get(api_url, params={"page": page, "per_page": 100})\<close>: page, then page size\<close>

subsection \<open>Category mapper: \<^verbatim>\<open>get_all_categories\<close>\<close>

partial_function (option) categories_loop ::
  "'a categories_api \<Rightarrow> nat \<Rightarrow> 'a list \<Rightarrow> (nat \<times> nat) list \<Rightarrow>
     ((exn + 'a list) \<times> (nat \<times> nat) list) option" where
  "categories_loop api_url page categories requested =
     (case api_url page 100 of
        Unreachable \<Rightarrow> Some (Inl ConnectionError, requested @ [(page, 100)])
      | Response status (header, data) \<Rightarrow>
          if status = 200 then
            if length data = 0 then Some (Inr (categories @ data), requested @ [(page, 100)])
            else categories_loop api_url (page + 1) (categories @ data) (requested @ [(page, 100)])
          else Some (Inr categories, requested @ [(page, 100)]))"

declare categories_loop.simps [code]

definition get_all_categories ::
  "'a categories_api \<Rightarrow> ((exn + 'a list) \<times> (nat \<times> nat) list) option" where
  "get_all_categories api_url = categories_loop api_url 1 [] []"

subsection \<open>Image migrator: \<^verbatim>\<open>get_posts_by_category\<close>\<close>

text \<open>The body of the \<^verbatim>\<open>try\<close>: the request, \<^verbatim>\<open>raise_for_status()\<close>, the decoded page.\<close>

definition category_page_query :: "nat \<Rightarrow> nat \<Rightarrow> posts_query" where
  "category_page_query category_id page = Posts_query (Some category_id) 100 (Some page)"

definition get_category_page :: "'a posts_api \<Rightarrow> nat \<Rightarrow> nat \<Rightarrow> exn + 'a list" where
  "get_category_page wordpress category_id page =
     (case wordpress (category_page_query category_id page) of
        Unreachable \<Rightarrow> Inl ConnectionError
      | Response status (header, data) \<Rightarrow>
          (case raise_for_status status of
             Inl e \<Rightarrow> Inl e
           | Inr _ \<Rightarrow> Inr data))"

text \<open>\<^verbatim>\<open>except requests.exceptions.RequestException: break\<close>; any other exception would
  leave the function.\<close>

partial_function (option) posts_by_category_loop ::
  "'a posts_api \<Rightarrow> nat \<Rightarrow> nat \<Rightarrow> 'a list \<Rightarrow> posts_query list \<Rightarrow>
     ((exn + 'a list) \<times> posts_query list) option" where
  "posts_by_category_loop wordpress category_id page posts requested =
     (case get_category_page wordpress category_id page of
        Inl e \<Rightarrow>
          if is_RequestException e
          then Some (Inr posts, requested @ [category_page_query category_id page])
          else Some (Inl e, requested @ [category_page_query category_id page])
      | Inr data \<Rightarrow>
          if length data < 100
          then Some (Inr (posts @ data), requested @ [category_page_query category_id page])
          else posts_by_category_loop wordpress category_id (page + 1) (posts @ data)
                 (requested @ [category_page_query category_id page]))"

declare posts_by_category_loop.simps [code]

definition get_posts_by_category ::
  "'a posts_api \<Rightarrow> nat \<Rightarrow> ((exn + 'a list) \<times> posts_query list) option" where
  "get_posts_by_category wordpress category_id =
     posts_by_category_loop wordpress category_id 1 [] []"

subsection \<open>Content migrator: \<^verbatim>\<open>fetch_posts\<close>\<close>

text \<open>\<^verbatim>\<open>int(response.headers.get("X-WP-TotalPages", 1))\<close>.\<close>

definition total_pages :: "int option \<Rightarrow> int" where
  "total_pages header = (case header of None \<Rightarrow> 1 | Some n \<Rightarrow> n)"

text \<open>The \<^verbatim>\<open>while True\<close> loop over the pages of one category.\<close>

partial_function (option) fetch_category_loop ::
  "'a posts_api \<Rightarrow> nat \<Rightarrow> nat \<Rightarrow> 'a list \<Rightarrow> posts_query list \<Rightarrow>
     ((exn + 'a list) \<times> posts_query list) option" where
  "fetch_category_loop wordpress category_id page posts requested =
     (case wordpress (category_page_query category_id page) of
        Unreachable \<Rightarrow>
          Some (Inl ConnectionError, requested @ [category_page_query category_id page])
      | Response status (header, data) \<Rightarrow>
          if status = 200 then
            if total_pages header \<le> int page
            then Some (Inr (posts @ data), requested @ [category_page_query category_id page])
            else fetch_category_loop wordpress category_id (page + 1) (posts @ data)
                   (requested @ [category_page_query category_id page])
          else Some (Inl (FetchError status), requested @ [category_page_query category_id page]))"

declare fetch_category_loop.simps [code]

text \<open>\<^verbatim>\<open>for category_id in wordpress_categories\<close>: an exception of a category's loop ends
  the whole loop.\<close>

fun fetch_categories ::
  "'a posts_api \<Rightarrow> nat list \<Rightarrow> 'a list \<Rightarrow> posts_query list \<Rightarrow>
     ((exn + 'a list) \<times> posts_query list) option" where
  "fetch_categories wordpress [] posts requested = Some (Inr posts, requested)"
| "fetch_categories wordpress (category_id # rest) posts requested =
     (case fetch_category_loop wordpress category_id 1 posts requested of
        None \<Rightarrow> None
      | Some (Inl e, requested') \<Rightarrow> Some (Inl e, requested')
      | Some (Inr posts', requested') \<Rightarrow> fetch_categories wordpress rest posts' requested')"

definition fetch_posts ::
  "'a posts_api \<Rightarrow> nat list \<Rightarrow> ((exn + 'a list) \<times> posts_query list) option" where
  "fetch_posts wordpress wordpress_categories =
     (if wordpress_categories = [] then
        (case wordpress (Posts_query None 100 None) of
           Unreachable \<Rightarrow> Some (Inl ConnectionError, [Posts_query None 100 None])
         | Response status (header, data) \<Rightarrow>
             if status = 200 then Some (Inr data, [Posts_query None 100 None])
             else Some (Inl (FetchError status), [Posts_query None 100 None]))
      else fetch_categories wordpress wordpress_categories [] [])"

text \<open>A WordPress site with a list of posts, answering as the REST API does: the posts
  of the category (all posts without the filter), \<open>per_page\<close> of them on each page, the
  first page when no page is named, the number of pages in the header, and status 400 for
  a page after the last.\<close>

definition wp_site :: "'a list \<Rightarrow> ('a \<Rightarrow> nat list) \<Rightarrow> 'a posts_api" where
  "wp_site all_posts categories_of query =
     (case query of Posts_query category per_page page \<Rightarrow>
        let matching = (case category of
                          None \<Rightarrow> all_posts
                        | Some c \<Rightarrow> filter (\<lambda>p. c \<in> set (categories_of p)) all_posts);
            number = (case page of None \<Rightarrow> 1 | Some n \<Rightarrow> n);
            pages = (length matching + per_page - 1) div per_page
        in if per_page = 0 \<or> number = 0 \<or> (1 < number \<and> pages < number)
           then Response 400 (None, [])
           else Response 200 (Some (int pages),
                              take per_page (drop ((number - 1) * per_page) matching)))"

text \<open>A categories endpoint over a list of categories whose server caps the page size.\<close>

definition categories_site :: "'a list \<Rightarrow> nat \<Rightarrow> 'a categories_api" where
  "categories_site all_categories cap page per_page =
     Response 200 (None, take (min cap per_page) (drop ((page - 1) * min cap per_page) all_categories))"

text \<open>A source that answers a given error status from a given page on.\<close>

definition down_from :: "nat \<Rightarrow> nat \<Rightarrow> 'a posts_api \<Rightarrow> 'a posts_api" where
  "down_from n status wordpress query =
     (case query of Posts_query category per_page page \<Rightarrow>
        if n \<le> (case page of None \<Rightarrow> 1 | Some k \<Rightarrow> k) then Response status (None, [])
        else wordpress query)"

text \<open>What the statements say about an answer: its decoded list, whether its status is
  200, and whether \<^verbatim>\<open>requests\<close> raises a \<^verbatim>\<open>RequestException\<close> for it.\<close>

definition page_data :: "'a wp_page response \<Rightarrow> 'a list" where
  "page_data r = (case r of Unreachable \<Rightarrow> [] | Response status (header, data) \<Rightarrow> data)"

definition answered_200 :: "'a wp_page response \<Rightarrow> bool" where
  "answered_200 r = (case r of Unreachable \<Rightarrow> False | Response status payload \<Rightarrow> status = 200)"

definition request_failed :: "'a wp_page response \<Rightarrow> bool" where
  "request_failed r =
     (case r of Unreachable \<Rightarrow> True | Response status payload \<Rightarrow> 400 \<le> status \<and> status < 600)"

section \<open>Content migrator: \<^verbatim>\<open>create_news.py\<close>\<close>

subsection \<open>The mapping files\<close>

text \<open>
  What \<^verbatim>\<open>json.load\<close> gives for a mapping file, as far as the scripts tell values apart:
  an array of entries (what the scripts themselves write); a value that is not a list and
  has nothing to loop over (\<^verbatim>\<open>{}\<close>, \<^verbatim>\<open>""\<close>); any other value (a number, \<^verbatim>\<open>null\<close>,
  a filled object or string), on which a loop over the entries raises \<^verbatim>\<open>TypeError\<close>.
  A file is absent, holds such a value, or is not JSON.
\<close>

datatype 'a json = Entries "'a list" | Empty_object | Other_json

datatype 'a json_file = Absent | Holds "'a json" | Malformed

record url_mapping =
  entry_original_url :: string    \<comment> \<open>\<^verbatim>\<open>"original_url"\<close>\<close>
  entry_new_url :: string         \<comment> \<open>\<^verbatim>\<open>"new_url"\<close>\<close>

record category_mapping =
  wordpress_id :: nat       \<comment> \<open>\<^verbatim>\<open>"WordPress ID"\<close>\<close>
  wordpress_name :: string  \<comment> \<open>\<^verbatim>\<open>"WordPress Name"\<close>\<close>
  liferay_id :: nat         \<comment> \<open>\<^verbatim>\<open>"Liferay ID"\<close>\<close>
  liferay_name :: string    \<comment> \<open>\<^verbatim>\<open>"Liferay Name"\<close>\<close>

text \<open>\<^verbatim>\<open>load_url_mapping\<close>: the empty list when the file does not exist, otherwise
  whatever \<^verbatim>\<open>json.load\<close> gives; only a file that is not JSON raises.\<close>

definition load_url_mapping :: "url_mapping json_file \<Rightarrow> exn + url_mapping json" where
  "load_url_mapping mapping_file =
     (case mapping_file of
        Absent \<Rightarrow> Inr (Entries [])
      | Holds loaded \<Rightarrow> Inr loaded
      | Malformed \<Rightarrow> Inl JSONDecodeError)"

text \<open>\<^verbatim>\<open>save_new_url_mapping\<close>: read the file (the empty list when it is absent),
  \<^verbatim>\<open>mapping.append\<close> the entry, write the whole value back. A value that is not a list
  has no \<^verbatim>\<open>append\<close>.\<close>

definition save_new_url_mapping ::
  "string \<Rightarrow> string \<Rightarrow> url_mapping json_file \<Rightarrow> exn + url_mapping json_file" where
  "save_new_url_mapping original_url new_url url_mapping_file =
     (case url_mapping_file of
        Malformed \<Rightarrow> Inl JSONDecodeError
      | Absent \<Rightarrow>
          Inr (Holds (Entries ([] @ [\<lparr>entry_original_url = original_url, entry_new_url = new_url\<rparr>])))
      | Holds (Entries mapping) \<Rightarrow>
          Inr (Holds (Entries
                 (mapping @ [\<lparr>entry_original_url = original_url, entry_new_url = new_url\<rparr>])))
      | Holds Empty_object \<Rightarrow> Inl AttributeError
      | Holds Other_json \<Rightarrow> Inl AttributeError)"

text \<open>\<^verbatim>\<open>load_categories_mapping\<close>: \<^verbatim>\<open>except FileNotFoundError: return []\<close>, otherwise
  whatever \<^verbatim>\<open>json.load\<close> gives.\<close>

definition load_categories_mapping ::
  "category_mapping json_file \<Rightarrow> exn + category_mapping json" where
  "load_categories_mapping categories_mapping_file =
     (case categories_mapping_file of
        Absent \<Rightarrow> Inr (Entries [])
      | Holds loaded \<Rightarrow> Inr loaded
      | Malformed \<Rightarrow> Inl JSONDecodeError)"

text \<open>\<^verbatim>\<open>for mapping in loaded: ... mapping[key] ...\<close>: the entries the loop goes through,
  or the \<^verbatim>\<open>TypeError\<close> it raises.\<close>

definition loop_entries :: "'a json \<Rightarrow> exn + 'a list" where
  "loop_entries loaded =
     (case loaded of
        Entries xs \<Rightarrow> Inr xs
      | Empty_object \<Rightarrow> Inr []
      | Other_json \<Rightarrow> Inl TypeError)"

text \<open>The entries a file holds, for the statements.\<close>

definition entries_of :: "'a json_file \<Rightarrow> 'a list" where
  "entries_of f = (case f of Holds (Entries xs) \<Rightarrow> xs | _ \<Rightarrow> [])"

subsection \<open>Rewriting URLs\<close>

text \<open>\<^verbatim>\<open>for mapping in url_mapping: content = content.replace(original_url, new_url)\<close>, in
  \<^verbatim>\<open>replace_image_urls\<close> and in \<^verbatim>\<open>replace_internal_links\<close>, over the entries that
  the loop goes through; \<open>loop_entries\<close> says what these are for a loaded value.\<close>

definition replace_image_urls :: "string \<Rightarrow> url_mapping list \<Rightarrow> string" where
  "replace_image_urls content url_mapping =
     fold (\<lambda>mapping content. str_replace (entry_original_url mapping) (entry_new_url mapping) content)
       url_mapping content"

definition replace_internal_links :: "string \<Rightarrow> url_mapping list \<Rightarrow> string" where
  "replace_internal_links content url_mapping =
     fold (\<lambda>mapping content. str_replace (entry_original_url mapping) (entry_new_url mapping) content)
       url_mapping content"

subsection \<open>Posts\<close>

text \<open>The fields of a WordPress post that the content migrator reads. Title and content
  are always there; the excerpt is empty when the post has none.\<close>

record post =
  post_title :: string                 \<comment> \<open>\<^verbatim>\<open>post["title"]["rendered"]\<close>\<close>
  post_content :: string               \<comment> \<open>\<^verbatim>\<open>post["content"]["rendered"]\<close>\<close>
  post_excerpt :: string               \<comment> \<open>\<^verbatim>\<open>post["excerpt"]["rendered"]\<close>\<close>
  post_categories :: "nat list"        \<comment> \<open>\<^verbatim>\<open>post["categories"]\<close>\<close>
  post_date_gmt :: "string option"     \<comment> \<open>\<^verbatim>\<open>post["date_gmt"]\<close>\<close>
  post_link :: "string option"         \<comment> \<open>\<^verbatim>\<open>post["link"]\<close>\<close>

text \<open>\<^verbatim>\<open>generate_friendly_url\<close> rests on the \<^verbatim>\<open>unidecode\<close> table and
  \<^verbatim>\<open>format_date_for_liferay\<close> on \<^verbatim>\<open>datetime.strptime\<close>, which raises on a date of
  another format. Both are parameters.\<close>

record library =
  generate_friendly_url :: "string \<Rightarrow> string"
  format_date_for_liferay :: "string \<Rightarrow> exn + string"

subsection \<open>\<^verbatim>\<open>process_post\<close>\<close>

text \<open>An exception leaves the function with the state reached: the result is the
  exception, if any, and the destination with the URL mapping file. The two mappings are
  the values that \<^verbatim>\<open>main\<close> loaded. The category mapping is looped over once for each
  category of the post, the URL mapping once in \<^verbatim>\<open>replace_image_urls\<close>, after the date
  is formatted and before the request is sent.\<close>

definition not_found_new :: string where
  "not_found_new = ''URL n'' @ [CHR 0xE3] @ ''o encontrada''"

definition not_found_old :: string where
  "not_found_old = ''URL antiga n'' @ [CHR 0xE3] @ ''o encontrada''"

definition content_fields_of :: "string \<Rightarrow> string \<Rightarrow> content_field list" where
  "content_fields_of content_html excerpt =
     [\<lparr>field_name = ''TextoMateria'', field_data = content_html\<rparr>] @
     (if excerpt = [] then [] else [\<lparr>field_name = ''Chamada'', field_data = excerpt\<rparr>])"

definition process_post ::
  "'w liferay \<Rightarrow> library \<Rightarrow> post \<Rightarrow> url_mapping json \<Rightarrow> category_mapping json \<Rightarrow>
     'w \<times> url_mapping json_file \<Rightarrow> exn option \<times> ('w \<times> url_mapping json_file)" where
  "process_post L lib post_data url_mapping category_mapping state =
     (case state of (w, url_mapping_file) \<Rightarrow>
        case (if post_categories post_data = [] then Inr []
              else case loop_entries category_mapping of
                     Inl e \<Rightarrow> Inl e
                   | Inr mappings \<Rightarrow>
                       Inr (concat (map (\<lambda>category.
                              map liferay_id
                                (filter (\<lambda>mapping. wordpress_id mapping = category) mappings))
                            (post_categories post_data)))) of
          Inl e \<Rightarrow> (Some e, (w, url_mapping_file))
        | Inr liferay_category_ids \<Rightarrow>
           let friendly_url = generate_friendly_url lib (post_title post_data)
           in case (case post_date_gmt post_data of
                      None \<Rightarrow> Inr None
                    | Some date \<Rightarrow>
                        (case format_date_for_liferay lib date of
                           Inl e \<Rightarrow> Inl e
                         | Inr date_created_str \<Rightarrow> Inr (Some date_created_str))) of
                Inl e \<Rightarrow> (Some e, (w, url_mapping_file))
              | Inr date_created_str \<Rightarrow>
                 (case loop_entries url_mapping of
                    Inl e \<Rightarrow> (Some e, (w, url_mapping_file))
                  | Inr mappings \<Rightarrow>
                     let content_html = replace_image_urls (post_content post_data) mappings;
                         payload = \<lparr> payload_title = post_title post_data,
                                     payload_friendly_url = friendly_url,
                                     payload_date_created = date_created_str,
                                     payload_category_ids = liferay_category_ids,
                                     payload_fields =
                                       content_fields_of content_html (post_excerpt post_data) \<rparr>
                     in case post_structured_content L payload w of
                          (Unreachable, w') \<Rightarrow> (None, (w', url_mapping_file))
                        | (Response status new_page_url, w') \<Rightarrow>
                            if status = 200 \<or> status = 201 then
                              (case save_new_url_mapping
                                      (case post_link post_data of
                                         None \<Rightarrow> not_found_old | Some link \<Rightarrow> link)
                                      (case new_page_url of
                                         None \<Rightarrow> not_found_new | Some url \<Rightarrow> url)
                                      url_mapping_file of
                                 Inl e \<Rightarrow> (Some e, (w', url_mapping_file))
                               | Inr url_mapping_file' \<Rightarrow> (None, (w', url_mapping_file')))
                            else (None, (w', url_mapping_file))))"

subsection \<open>The second pass\<close>

text \<open>\<^verbatim>\<open>get_content_id_by_friendly_url\<close>: the id of the first item found; \<open>None\<close> on
  another status, on no item, and on a \<^verbatim>\<open>RequestException\<close>, which is caught.\<close>

definition get_content_id_by_friendly_url :: "'w liferay \<Rightarrow> string \<Rightarrow> 'w \<Rightarrow> nat option \<times> 'w" where
  "get_content_id_by_friendly_url L friendly_url w =
     (case get_structured_contents L friendly_url w of
        (Unreachable, w') \<Rightarrow> (None, w')
      | (Response status results, w') \<Rightarrow>
          if status = 200 then
            (case results of [] \<Rightarrow> (None, w') | content_id # _ \<Rightarrow> (Some content_id, w'))
          else (None, w'))"

text \<open>\<^verbatim>\<open>update_content_in_liferay\<close>: one \<^verbatim>\<open>PATCH\<close> whose payload is the single content
  field \<^verbatim>\<open>TextoMateria\<close>; the status is only logged and a \<^verbatim>\<open>RequestException\<close> is
  caught.\<close>

definition update_content_in_liferay :: "'w liferay \<Rightarrow> nat \<Rightarrow> string \<Rightarrow> 'w \<Rightarrow> 'w" where
  "update_content_in_liferay L content_id updated_html w =
     snd (patch_structured_content L content_id
            [\<lparr>field_name = ''TextoMateria'', field_data = updated_html\<rparr>] w)"

text \<open>The body of the second loop of \<^verbatim>\<open>main\<close>, for one post. \<^verbatim>\<open>if content_id:\<close> holds
  for an id that is there and is not 0.\<close>

definition second_pass_post :: "'w liferay \<Rightarrow> library \<Rightarrow> url_mapping list \<Rightarrow> post \<Rightarrow> 'w \<Rightarrow> 'w" where
  "second_pass_post L lib url_mapping post_data w =
     (let friendly_url = generate_friendly_url lib (post_title post_data)
      in case get_content_id_by_friendly_url L friendly_url w of
           (None, w') \<Rightarrow> w'
         | (Some content_id, w') \<Rightarrow>
             if content_id = 0 then w'
             else
               let content_html = post_content post_data;
                   updated_html = replace_internal_links content_html url_mapping
               in if updated_html = content_html then w'
                  else update_content_in_liferay L content_id updated_html w')"

subsection \<open>\<^verbatim>\<open>main\<close>\<close>

text \<open>The first loop: an exception of \<^verbatim>\<open>process_post\<close> ends it.\<close>

fun first_pass ::
  "'w liferay \<Rightarrow> library \<Rightarrow> post list \<Rightarrow> url_mapping json \<Rightarrow> category_mapping json \<Rightarrow>
     'w \<times> url_mapping json_file \<Rightarrow> exn option \<times> ('w \<times> url_mapping json_file)" where
  "first_pass L lib [] url_mapping category_mapping state = (None, state)"
| "first_pass L lib (post_data # rest) url_mapping category_mapping state =
     (case process_post L lib post_data url_mapping category_mapping state of
        (Some e, state') \<Rightarrow> (Some e, state')
      | (None, state') \<Rightarrow> first_pass L lib rest url_mapping category_mapping state')"

text \<open>The second loop. On the entries that the loaded URL mapping gives, its body is
  \<open>second_pass_post\<close>. On a value that cannot be looped over, \<^verbatim>\<open>replace_internal_links\<close>
  raises, which happens for the first post whose content is found.\<close>

fun second_pass ::
  "'w liferay \<Rightarrow> library \<Rightarrow> url_mapping json \<Rightarrow> post list \<Rightarrow> 'w \<Rightarrow> exn option \<times> 'w" where
  "second_pass L lib url_mapping [] w = (None, w)"
| "second_pass L lib url_mapping (post_data # rest) w =
     (case loop_entries url_mapping of
        Inr mappings \<Rightarrow>
          second_pass L lib url_mapping rest (second_pass_post L lib mappings post_data w)
      | Inl e \<Rightarrow>
          (case get_content_id_by_friendly_url L
                  (generate_friendly_url lib (post_title post_data)) w of
             (None, w') \<Rightarrow> second_pass L lib url_mapping rest w'
           | (Some content_id, w') \<Rightarrow>
               if content_id = 0 then second_pass L lib url_mapping rest w'
               else (Some e, w')))"

text \<open>Everything is inside \<^verbatim>\<open>try: ... except Exception as e: logger.critical(...)\<close>: an
  exception ends the run at the state reached and is logged. The result is that
  exception, if any, and the final state; \<open>None\<close> when the fetch of the posts never
  ends. \<^verbatim>\<open>wordpress_categories\<close> is a loop over the loaded category mapping.\<close>

definition main ::
  "post posts_api \<Rightarrow> 'w liferay \<Rightarrow> library \<Rightarrow> category_mapping json_file \<Rightarrow>
     'w \<times> url_mapping json_file \<Rightarrow> (exn option \<times> ('w \<times> url_mapping json_file)) option" where
  "main wordpress L lib categories_mapping_file state =
     (case load_categories_mapping categories_mapping_file of
        Inl e \<Rightarrow> Some (Some e, state)
      | Inr category_mapping \<Rightarrow>
          (case loop_entries category_mapping of
             Inl e \<Rightarrow> Some (Some e, state)
           | Inr mappings \<Rightarrow>
              (case fetch_posts wordpress (map wordpress_id mappings) of
                 None \<Rightarrow> None
               | Some (Inl e, requested) \<Rightarrow> Some (Some e, state)
               | Some (Inr posts_data, requested) \<Rightarrow>
                   (case load_url_mapping (snd state) of
                      Inl e \<Rightarrow> Some (Some e, state)
                    | Inr url_mapping \<Rightarrow>
                        (case first_pass L lib posts_data url_mapping category_mapping state of
                           (Some e, state') \<Rightarrow> Some (Some e, state')
                         | (None, (w', url_mapping_file')) \<Rightarrow>
                             (case load_url_mapping url_mapping_file' of
                                Inl e \<Rightarrow> Some (Some e, (w', url_mapping_file'))
                              | Inr url_mapping' \<Rightarrow>
                                  (case second_pass L lib url_mapping' posts_data w' of
                                     (e, w'') \<Rightarrow> Some (e, (w'', url_mapping_file')))))))))"

subsection \<open>Destinations for the statements\<close>

text \<open>Any destination, with the list of the requests it received.\<close>

datatype call =
    Get_document_folders container
  | Post_document_folder container string string
  | Get_structured_contents string
  | Patch_structured_content nat "content_field list"
  | Post_structured_content content_payload

definition traced :: "'w liferay \<Rightarrow> ('w \<times> call list) liferay" where
  "traced L =
     \<lparr> get_document_folders = (\<lambda>parent (w, calls).
          case get_document_folders L parent w of
            (r, w') \<Rightarrow> (r, (w', calls @ [Get_document_folders parent]))),
       post_document_folder = (\<lambda>parent name description (w, calls).
          case post_document_folder L parent name description w of
            (r, w') \<Rightarrow> (r, (w', calls @ [Post_document_folder parent name description]))),
       get_structured_contents = (\<lambda>friendly_url (w, calls).
          case get_structured_contents L friendly_url w of
            (r, w') \<Rightarrow> (r, (w', calls @ [Get_structured_contents friendly_url]))),
       patch_structured_content = (\<lambda>cid payload (w, calls).
          case patch_structured_content L cid payload w of
            (r, w') \<Rightarrow> (r, (w', calls @ [Patch_structured_content cid payload]))),
       post_structured_content = (\<lambda>payload (w, calls).
          case post_structured_content L payload w of
            (r, w') \<Rightarrow> (r, (w', calls @ [Post_structured_content payload]))) \<rparr>"

text \<open>A destination that keeps structured contents. A \<^verbatim>\<open>PATCH\<close> is a partial update: it
  replaces the content fields that the payload names, adds those the content does not
  have, and leaves everything else of the content as it is.\<close>

record structured_content =
  sc_id :: nat
  sc_title :: string
  sc_friendly_url :: string
  sc_date_created :: "string option"
  sc_category_ids :: "nat list"
  sc_fields :: "content_field list"

definition patch_fields :: "content_field list \<Rightarrow> content_field list \<Rightarrow> content_field list" where
  "patch_fields payload existing =
     map (\<lambda>f. case find (\<lambda>g. field_name g = field_name f) payload of None \<Rightarrow> f | Some g \<Rightarrow> g)
       existing @
     filter (\<lambda>g. field_name g \<notin> set (map field_name existing)) payload"

definition content_store :: "structured_content list liferay" where
  "content_store =
     \<lparr> get_document_folders = (\<lambda>parent w. (Response 404 None, w)),
       post_document_folder = (\<lambda>parent name description w. (Response 404 None, w)),
       get_structured_contents = (\<lambda>friendly_url w.
          (Response 200 (map sc_id (filter (\<lambda>c. sc_friendly_url c = friendly_url) w)), w)),
       patch_structured_content = (\<lambda>cid payload w.
          if cid \<in> set (map sc_id w)
          then (Response 200 (),
                map (\<lambda>c. if sc_id c = cid
                         then c\<lparr>sc_fields := patch_fields payload (sc_fields c)\<rparr>
                         else c) w)
          else (Response 404 (), w)),
       post_structured_content = (\<lambda>payload w.
          (Response 201 (Some (payload_friendly_url payload)),
           w @ [\<lparr> sc_id = length w + 1,
                  sc_title = payload_title payload,
                  sc_friendly_url = payload_friendly_url payload,
                  sc_date_created = payload_date_created payload,
                  sc_category_ids = payload_category_ids payload,
                  sc_fields = payload_fields payload \<rparr>])) \<rparr>"


section \<open>Properties\<close>

subsection \<open>Folder names\<close>

lemma str_replace_char_empty: "str_replace [c] [] s = filter (\<lambda>x. x \<noteq> c) s"
proof (induction s)
  case Nil
  show ?case by (simp add: str_replace.simps)
next
  case (Cons x xs)
  show ?case
    by (subst str_replace.simps) (simp add: Cons.IH)
qed

lemma set_str_replace: "set (str_replace old new s) \<subseteq> set s \<union> set new"
proof (induction old new s rule: str_replace.induct)
  case (1 old new s)
  show ?case
  proof (cases "old = []")
    case True
    then show ?thesis by (subst str_replace.simps) auto
  next
    case ne: False
    show ?thesis
    proof (cases "s = []")
      case True
      with ne show ?thesis by (subst str_replace.simps) simp
    next
      case False
      show ?thesis
      proof (cases "take (length old) s = old")
        case True
        have "set (drop (length old) s) \<subseteq> set s" by (rule set_drop_subset)
        with "1.IH"(1)[OF ne False True] ne False True show ?thesis
          by (subst str_replace.simps) auto
      next
        case nt: False
        have "set (tl s) \<subseteq> set s" using False by (cases s) auto
        moreover have "hd s \<in> set s" using False by simp
        ultimately show ?thesis using "1.IH"(2)[OF ne False nt] ne False nt
          by (subst str_replace.simps) auto
      qed
    qed
  qed
qed

lemma remove_invalid_chars_filter:
  "remove_invalid_chars title = filter (\<lambda>x. x \<notin> set invalid_chars) title"
  unfolding remove_invalid_chars_def invalid_chars_def
  by (simp add: str_replace_char_empty)

lemma set_stripped_title: "set (stripped_title title) \<inter> set invalid_chars = {}"
proof -
  have a: "set (remove_invalid_chars title) \<inter> set invalid_chars = {}"
    by (auto simp: remove_invalid_chars_filter)
  have b: "set (drop_trailing_dots t) \<subseteq> set t" for t
    by (auto simp: drop_trailing_dots_def dest: in_set_takeD)
  have c: "set (remove_path_sequences t) \<subseteq> set t" for t
    unfolding remove_path_sequences_def
    using set_str_replace[of "''/...''" "[]" "str_replace ''../'' [] t"] set_str_replace[of "''../''" "[]" t]
    by auto
  show ?thesis unfolding stripped_title_def using a b c by blast
qed

lemma reserved_names_short: "r \<in> set reserved_names \<Longrightarrow> length r \<le> 4"
  by (auto simp: reserved_names_def)

lemma safe_suffix_valid: "set ''_safe'' \<inter> set invalid_chars = {}"
  by (simp add: invalid_chars_def)

text \<open>
  C4. For every title: an empty title raises; any other title gives a name that contains
  none of the characters \<^verbatim>\<open><>:"/\|?*\<close>, is at most 255 characters long, and is the
  stripped title followed by \<^verbatim>\<open>_safe\<close> when that title, in lower case, is a reserved word.
\<close>

theorem sanitize_folder_title_spec:
  "(title = [] \<longrightarrow> sanitize_folder_title title = Inl ValueError) \<and>
   (title \<noteq> [] \<longrightarrow>
      (\<exists>name. sanitize_folder_title title = Inr name \<and>
         set name \<inter> set invalid_chars = {} \<and>
         length name \<le> 255 \<and>
         (lower (stripped_title title) \<in> set reserved_names \<longrightarrow>
            name = stripped_title title @ ''_safe'')))"
proof (intro conjI impI)
  assume "title = []"
  then show "sanitize_folder_title title = Inl ValueError"
    by (simp add: sanitize_folder_title_def)
next
  assume ne: "title \<noteq> []"
  define t where "t = stripped_title title"
  define u where "u = (if lower t \<in> set reserved_names then t @ ''_safe'' else t)"
  have res: "sanitize_folder_title title = Inr (take 255 u)"
    using ne by (simp add: sanitize_folder_title_def t_def u_def Let_def)
  have "set u \<inter> set invalid_chars = {}"
    using set_stripped_title[of title] safe_suffix_valid
    unfolding u_def t_def by (auto simp del: set_simps)
  then have chars: "set (take 255 u) \<inter> set invalid_chars = {}"
    using set_take_subset[of 255 u] by blast
  have safe: "take 255 u = t @ ''_safe''" if r: "lower t \<in> set reserved_names"
  proof -
    have "length t \<le> 4" using reserved_names_short[OF r] by (simp add: lower_def)
    then show ?thesis using r by (simp add: u_def)
  qed
  show "\<exists>name. sanitize_folder_title title = Inr name \<and>
         set name \<inter> set invalid_chars = {} \<and>
         length name \<le> 255 \<and>
         (lower (stripped_title title) \<in> set reserved_names \<longrightarrow>
            name = stripped_title title @ ''_safe'')"
    using res chars safe unfolding t_def by auto
qed

theorem sanitize_folder_title_spec_witness:
  "''CON'' \<noteq> [] \<and> lower (stripped_title ''CON'') \<in> set reserved_names \<and>
   sanitize_folder_title ''CON'' = Inr ''CON_safe''"
proof -
  have ne: "''CON'' \<noteq> []" by simp
  have r: "lower (stripped_title ''CON'') \<in> set reserved_names" by code_simp
  have s: "stripped_title ''CON'' = ''CON''" by code_simp
  from sanitize_folder_title_spec[of "''CON''"] ne r
  obtain name where "sanitize_folder_title ''CON'' = Inr name"
    and "name = stripped_title ''CON'' @ ''_safe''" by blast
  with s r show ?thesis by simp
qed

text \<open>
  C10. \<^verbatim>\<open>sanitize_folder_title\<close> raises exactly on the empty title: the emptiness check comes
  before the characters are removed, so a non-empty title made only of invalid characters
  (such as \<^verbatim>\<open>???\<close>) does not raise and gives the empty name.
\<close>

theorem sanitize_folder_title_only_invalid:
  "((\<exists>e. sanitize_folder_title title = Inl e) \<longleftrightarrow> title = []) \<and>
   (title \<noteq> [] \<and> set title \<subseteq> set invalid_chars \<longrightarrow> sanitize_folder_title title = Inr [])"
proof (intro conjI impI)
  show "(\<exists>e. sanitize_folder_title title = Inl e) \<longleftrightarrow> title = []"
    by (simp add: sanitize_folder_title_def Let_def)
next
  assume h: "title \<noteq> [] \<and> set title \<subseteq> set invalid_chars"
  then have "remove_invalid_chars title = []"
    by (auto simp: remove_invalid_chars_filter filter_empty_conv)
  then have "stripped_title title = []"
    by (simp add: stripped_title_def drop_trailing_dots_def endswith_def
        remove_path_sequences_def str_replace.simps)
  then show "sanitize_folder_title title = Inr []"
    using h by (simp add: sanitize_folder_title_def lower_def reserved_names_def)
qed

theorem sanitize_folder_title_only_invalid_witness:
  "''???'' \<noteq> [] \<and> set ''???'' \<subseteq> set invalid_chars \<and> sanitize_folder_title ''???'' = Inr []"
  using sanitize_folder_title_only_invalid[of "''???''"]
  by (simp add: invalid_chars_def)

subsection \<open>Subfolders\<close>

lemma unique_name_loop_fresh:
  "unique_name_loop base_name existing_names counter new_name \<notin> set existing_names"
  by (induction base_name existing_names counter new_name rule: unique_name_loop.induct)
     (subst unique_name_loop.simps, simp)

lemma generate_unique_name_fresh:
  "generate_unique_name base_name existing_names \<notin> set existing_names"
  by (simp add: generate_unique_name_def unique_name_loop_fresh)

lemma generate_unique_name_example:
  "generate_unique_name ''Foo'' [''Foo'', ''Foo_1''] = ''Foo_2''"
  by code_simp

lemma subfolder_lookup_finds_nothing:
  "find (\<lambda>folder. folder_name folder = generate_unique_name t (map folder_name items)) items = None"
proof -
  have "folder_name folder \<noteq> generate_unique_name t (map folder_name items)"
    if "folder \<in> set items" for folder
    using generate_unique_name_fresh[of t "map folder_name items"] that
    by (metis image_eqI list.set_map)
  then show ?thesis by (simp add: find_None_iff)
qed

lemma subfolder_attempt_always_posts:
  assumes "get_document_folders L (Document_folder parent) w = (Response status (Some items), w')"
    and "raise_for_status status = Inr ()"
  shows "subfolder_attempt L parent t w =
           post_subfolder L parent (generate_unique_name t (map folder_name items)) w'"
  using assms by (simp add: subfolder_attempt_def subfolder_lookup_finds_nothing)

lemma subfolder_title_not_empty: "subfolder_title subfolder_name \<noteq> []"
  by (cases subfolder_name) (auto simp: subfolder_title_def strip_is_empty_def)

lemma sanitize_subfolder_title:
  "\<exists>t. sanitize_folder_title (subfolder_title subfolder_name) = Inr t"
  using subfolder_title_not_empty[of subfolder_name]
  by (simp add: sanitize_folder_title_def Let_def)

text \<open>
  C9. \<^verbatim>\<open>create_or_get_subfolder\<close> never raises: the title it sanitizes is never empty, and
  every exception of the two attempts is caught. When the first attempt raises an
  \<^verbatim>\<open>HTTPError\<close> and the retry raises too, the result is the parent folder's id; so it is
  when the first attempt raises anything else.
\<close>

theorem create_or_get_subfolder_never_raises:
  "\<exists>sanitized_title.
     sanitize_folder_title (subfolder_title subfolder_name) = Inr sanitized_title \<and>
     (\<exists>folder_id w'. create_or_get_subfolder L parent subfolder_name w = (Inr folder_id, w')) \<and>
     (\<forall>e w1 e' w2.
        subfolder_attempt L parent sanitized_title w = (Inl e, w1) \<and> is_HTTPError e \<and>
        subfolder_retry L parent sanitized_title w1 = (Inl e', w2) \<longrightarrow>
        create_or_get_subfolder L parent subfolder_name w = (Inr parent, w2)) \<and>
     (\<forall>e w1.
        subfolder_attempt L parent sanitized_title w = (Inl e, w1) \<and> \<not> is_HTTPError e \<longrightarrow>
        create_or_get_subfolder L parent subfolder_name w = (Inr parent, w1))"
proof -
  obtain t where t: "sanitize_folder_title (subfolder_title subfolder_name) = Inr t"
    using sanitize_subfolder_title by blast
  obtain r w1 where a: "subfolder_attempt L parent t w = (r, w1)"
    by (cases "subfolder_attempt L parent t w")
  obtain r' w2 where b: "subfolder_retry L parent t w1 = (r', w2)"
    by (cases "subfolder_retry L parent t w1")
  have total: "\<exists>folder_id w'. create_or_get_subfolder L parent subfolder_name w = (Inr folder_id, w')"
    using t a b by (cases r; cases r') (simp_all add: create_or_get_subfolder_def)
  have both: "create_or_get_subfolder L parent subfolder_name w = (Inr parent, w2')"
    if "subfolder_attempt L parent t w = (Inl e, w1')" "is_HTTPError e"
       "subfolder_retry L parent t w1' = (Inl e', w2')" for e w1' e' w2'
    using that t by (simp add: create_or_get_subfolder_def)
  have other: "create_or_get_subfolder L parent subfolder_name w = (Inr parent, w1')"
    if "subfolder_attempt L parent t w = (Inl e, w1')" "\<not> is_HTTPError e" for e w1'
    using that t by (simp add: create_or_get_subfolder_def)
  show ?thesis using t total both other by blast
qed

theorem create_or_get_subfolder_never_raises_witness:
  "subfolder_attempt failing_liferay 7 ''Post'' 0 = (Inl (HTTPError 500), 1) \<and>
   is_HTTPError (HTTPError 500) \<and>
   subfolder_retry failing_liferay 7 ''Post'' 1 = (Inl (HTTPError 500), 3) \<and>
   create_or_get_subfolder failing_liferay 7 ''Post'' (0::nat) = (Inr 7, 3)"
proof -
  have s: "sanitize_folder_title (subfolder_title ''Post'') = Inr ''Post''" by code_simp
  have a: "subfolder_attempt failing_liferay 7 ''Post'' 0 = (Inl (HTTPError 500), 1)"
    by (simp add: subfolder_attempt_def failing_liferay_def raise_for_status_def)
  have g: "generate_unique_name ''Post'' [] = ''Post''"
    by (simp add: generate_unique_name_def unique_name_loop.simps)
  have b: "subfolder_retry failing_liferay 7 ''Post'' 1 = (Inl (HTTPError 500), 3)"
    by (simp add: subfolder_retry_def post_subfolder_def failing_liferay_def raise_for_status_def g)
  from create_or_get_subfolder_never_raises[of "''Post''" failing_liferay 7 0] s a b
  have "create_or_get_subfolder failing_liferay 7 ''Post'' (0::nat) = (Inr 7, 3)"
    by (metis is_HTTPError.simps(1) sum.inject(2))
  with a b show ?thesis by simp
qed


lemma find_append_new:
  "find P xs = None \<Longrightarrow> P x \<Longrightarrow> find P (xs @ [x]) = Some x"
  by (induction xs) (auto split: if_splits)

text \<open>The function for the category folders looks for the sanitized title itself. On a
  destination that keeps its folders, a second call with the same title and site returns the
  id of the first and changes neither the destination nor the counter of created folders.\<close>

lemma create_or_get_folder_twice:
  assumes "create_or_get_folder_in_liferay folder_store title site_id (w, n) = (Inr i, (w1, n1))"
  shows "create_or_get_folder_in_liferay folder_store title site_id (w1, n1) = (Inr i, (w1, n1))"
proof -
  from assms obtain t where t: "sanitize_folder_title title = Inr t"
    by (cases "sanitize_folder_title title") (auto simp: create_or_get_folder_in_liferay_def)
  let ?P = "\<lambda>folder. folder_name folder = t"
  show ?thesis
  proof (cases "find ?P (subfolders_of w (Site site_id))")
    case (Some f)
    with assms t have "i = folder_id f" "w1 = w" "n1 = n"
      by (auto simp: create_or_get_folder_in_liferay_def folder_store_def raise_for_status_def)
    with Some t show ?thesis
      by (simp add: create_or_get_folder_in_liferay_def folder_store_def raise_for_status_def)
  next
    case None
    then have fresh: "t \<notin> folder_name ` set (subfolders_of w (Site site_id))"
      by (auto simp: find_None_iff)
    let ?new = "\<lparr>folder_id = next_id w, folder_name = t\<rparr>"
    from assms t None fresh have res: "i = next_id w"
      "w1 = w\<lparr>folders := folders w @ [(Site site_id, ?new)], next_id := next_id w + 1\<rparr>" "n1 = n + 1"
      by (auto simp: create_or_get_folder_in_liferay_def folder_store_def raise_for_status_def)
    have "subfolders_of w1 (Site site_id) = subfolders_of w (Site site_id) @ [?new]"
      using res(2) by (simp add: subfolders_of_def)
    then have "find ?P (subfolders_of w1 (Site site_id)) = Some ?new"
      using find_append_new[OF None, of ?new] by simp
    then show ?thesis using t res
      by (simp add: create_or_get_folder_in_liferay_def folder_store_def raise_for_status_def)
  qed
qed

text \<open>
  C1. Two calls with the same parent and the same name, one after the other, on a
  destination that keeps its folders: the first creates \<^verbatim>\<open>Foo\<close> with id 100, the second
  does not find it (the name it looks for is the one generated to differ from every
  existing name) and creates \<^verbatim>\<open>Foo_1\<close> with id 101.
\<close>

theorem create_or_get_subfolder_twice:
  "create_or_get_subfolder folder_store 1 ''Foo'' \<lparr>folders = [], next_id = 100\<rparr> =
     (Inr 100, \<lparr>folders = [(Document_folder 1, \<lparr>folder_id = 100, folder_name = ''Foo''\<rparr>)],
                next_id = 101\<rparr>) \<and>
   create_or_get_subfolder folder_store 1 ''Foo''
       \<lparr>folders = [(Document_folder 1, \<lparr>folder_id = 100, folder_name = ''Foo''\<rparr>)], next_id = 101\<rparr> =
     (Inr 101, \<lparr>folders = [(Document_folder 1, \<lparr>folder_id = 100, folder_name = ''Foo''\<rparr>),
                            (Document_folder 1, \<lparr>folder_id = 101, folder_name = ''Foo_1''\<rparr>)],
                next_id = 102\<rparr>)"
  by code_simp

subsection \<open>Pagination of the categories\<close>

lemma categories_loop_run:
  assumes "page \<le> k"
    and "\<forall>p. page \<le> p \<and> p < k \<longrightarrow> (\<exists>h d. api_url p 100 = Response 200 (h, d) \<and> d \<noteq> [])"
    and "api_url k 100 = Response status (h, d)"
    and "status \<noteq> 200 \<or> d = []"
  shows "categories_loop api_url page categories requested =
           Some (Inr (categories @ concat (map (\<lambda>p. page_data (api_url p 100)) [page..<k])),
                 requested @ map (\<lambda>p. (p, 100)) [page..<k + 1])"
  using assms(1,2)
proof (induction "k - page" arbitrary: page categories requested)
  case 0
  then have "page = k" by simp
  then show ?case
    using assms(3,4) by (subst categories_loop.simps) auto
next
  case (Suc n)
  then have lt: "page < k" by simp
  with Suc.prems obtain h' d' where pg: "api_url page 100 = Response 200 (h', d')" "d' \<noteq> []"
    by blast
  have ih: "categories_loop api_url (page + 1) (categories @ d') (requested @ [(page, 100)]) =
      Some (Inr ((categories @ d') @ concat (map (\<lambda>p. page_data (api_url p 100)) [page + 1..<k])),
            (requested @ [(page, 100)]) @ map (\<lambda>p. (p, 100)) [page + 1..<k + 1])"
    using Suc.hyps(2) Suc.prems lt by (intro Suc.hyps(1)) auto
  have l1: "[page..<k] = page # [page + 1..<k]" using lt by (simp add: upt_conv_Cons)
  have l2: "[page..<k + 1] = page # [page + 1..<k + 1]" using lt by (simp add: upt_conv_Cons)
  have "categories_loop api_url page categories requested =
        categories_loop api_url (page + 1) (categories @ d') (requested @ [(page, 100)])"
    using pg by (subst categories_loop.simps) simp
  also note ih
  finally show ?case
    unfolding l1 l2 using pg by (simp add: page_data_def)
qed

text \<open>
  C3, as the code has it. \<^verbatim>\<open>get_all_categories\<close> asks for page 1, 2, ... with page size
  100 and stops at the first page \<open>k\<close> that is empty or has a status other than 200; a
  page with fewer than 100 items does not stop it. When the pages before \<open>k\<close> have
  status 200 and are not empty, the loop ends, the result is the concatenation of the
  pages before \<open>k\<close>, and the pages requested are exactly 1 to \<open>k\<close>.
\<close>

theorem get_all_categories_until_empty_page:
  assumes "1 \<le> k"
    and "\<forall>p. 1 \<le> p \<and> p < k \<longrightarrow> (\<exists>h d. api_url p 100 = Response 200 (h, d) \<and> d \<noteq> [])"
    and "api_url k 100 = Response status (h, d)"
    and "status \<noteq> 200 \<or> d = []"
  shows "get_all_categories api_url =
           Some (Inr (concat (map (\<lambda>p. page_data (api_url p 100)) [1..<k])),
                 map (\<lambda>p. (p, 100)) [1..<k + 1])"
  unfolding get_all_categories_def
  using categories_loop_run[where page = 1 and k = k and api_url = api_url
      and categories = "[]" and requested = "[]", OF assms]
  by simp


theorem get_all_categories_until_empty_page_witness:
  "get_all_categories (categories_site [''a'', ''b'', ''c''] 2) =
     Some (Inr [''a'', ''b'', ''c''], [(1, 100), (2, 100), (3, 100)])"
proof -
  let ?api = "categories_site [''a'', ''b'', ''c''] 2"
  have p1: "?api 1 100 = Response 200 (None, [''a'', ''b''])" by (simp add: categories_site_def)
  have p2: "?api 2 100 = Response 200 (None, [''c''])" by (simp add: categories_site_def)
  have p3: "?api 3 100 = Response 200 (None, [])" by (simp add: categories_site_def)
  have before: "\<forall>p. 1 \<le> p \<and> p < 3 \<longrightarrow> (\<exists>h d. ?api p 100 = Response 200 (h, d) \<and> d \<noteq> [])"
  proof (intro allI impI)
    fix p :: nat assume "1 \<le> p \<and> p < 3"
    then have "p = 1 \<or> p = 2" by auto
    then show "\<exists>h d. ?api p 100 = Response 200 (h, d) \<and> d \<noteq> []"
      using p1 p2 by auto
  qed
  have u: "[1..<3] = [1, 2::nat]" "[1..<3 + 1] = [1, 2, 3::nat]" by (simp_all add: upt_rec)
  have "get_all_categories ?api =
           Some (Inr (concat (map (\<lambda>p. page_data (?api p 100)) [1..<3])),
                 map (\<lambda>p. (p, 100)) [1..<3 + 1])"
    using get_all_categories_until_empty_page[where k = 3 and api_url = ?api
        and status = 200 and h = None and d = "[]"] before p3
    by simp
  then show ?thesis
    unfolding u using p1 p2 by (simp add: page_data_def)
qed

text \<open>
  C3 as stated fails: with three categories on a server that gives two per page, the first
  page has fewer than 100 items, yet the loop goes on to pages 2 and 3 and the result is
  not the first page alone.
\<close>

theorem get_all_categories_short_page_counterexample:
  "length (page_data (categories_site [''a'', ''b'', ''c''] 2 1 100)) < 100 \<and>
   get_all_categories (categories_site [''a'', ''b'', ''c''] 2) =
     Some (Inr [''a'', ''b'', ''c''], [(1, 100), (2, 100), (3, 100)]) \<and>
   get_all_categories (categories_site [''a'', ''b'', ''c''] 2) \<noteq>
     Some (Inr (page_data (categories_site [''a'', ''b'', ''c''] 2 1 100)), [(1, 100)])"
  by code_simp

subsection \<open>Pagination of the posts\<close>

lemma get_category_page_ok:
  "wordpress (category_page_query c page) = Response 200 (h, d) \<Longrightarrow>
   get_category_page wordpress c page = Inr d"
  by (simp add: get_category_page_def raise_for_status_def)

text \<open>
  C6. When the first three pages of a category have status 200 and 100, 100 and 37 posts,
  \<^verbatim>\<open>get_posts_by_category\<close> returns the 237 posts of the three pages in order, and the
  requests it sends are those for pages 1, 2 and 3 and no other.
\<close>

theorem get_posts_by_category_three_pages:
  assumes "wordpress (category_page_query c 1) = Response 200 (h1, d1)" and "length d1 = 100"
    and "wordpress (category_page_query c 2) = Response 200 (h2, d2)" and "length d2 = 100"
    and "wordpress (category_page_query c 3) = Response 200 (h3, d3)" and "length d3 = 37"
  shows "get_posts_by_category wordpress c =
           Some (Inr (d1 @ d2 @ d3),
                 [category_page_query c 1, category_page_query c 2, category_page_query c 3]) \<and>
         length (d1 @ d2 @ d3) = 237"
proof -
  have third: "posts_by_category_loop wordpress c 3 posts requested =
      Some (Inr (posts @ d3), requested @ [category_page_query c 3])" for posts requested
    using get_category_page_ok[of wordpress c 3 h3 d3] assms(5,6)
    by (subst posts_by_category_loop.simps) simp
  have second: "posts_by_category_loop wordpress c 2 posts requested =
      posts_by_category_loop wordpress c 3 (posts @ d2) (requested @ [category_page_query c 2])"
    for posts requested
    using get_category_page_ok[of wordpress c 2 h2 d2] assms(3,4)
    by (subst posts_by_category_loop.simps) simp
  have first: "posts_by_category_loop wordpress c 1 posts requested =
      posts_by_category_loop wordpress c 2 (posts @ d1) (requested @ [category_page_query c 1])"
    for posts requested
    using get_category_page_ok[of wordpress c 1 h1 d1] assms(1,2)
    by (subst posts_by_category_loop.simps) (simp add: numeral_2_eq_2)
  have "get_posts_by_category wordpress c = posts_by_category_loop wordpress c 1 [] []"
    by (simp only: get_posts_by_category_def)
  also have "\<dots> = posts_by_category_loop wordpress c 2 ([] @ d1) ([] @ [category_page_query c 1])"
    by (rule first)
  also have "\<dots> = posts_by_category_loop wordpress c 3 (([] @ d1) @ d2)
                      (([] @ [category_page_query c 1]) @ [category_page_query c 2])"
    by (rule second)
  also have "\<dots> = Some (Inr ((([] @ d1) @ d2) @ d3),
                      (([] @ [category_page_query c 1]) @ [category_page_query c 2])
                        @ [category_page_query c 3])"
    by (rule third)
  finally show ?thesis
    using assms(2,4,6) by simp
qed

theorem get_posts_by_category_three_pages_witness:
  "wp_site [0..<237] (\<lambda>p. [5]) (category_page_query 5 1) = Response 200 (Some 3, [0..<100]) \<and>
   wp_site [0..<237] (\<lambda>p. [5]) (category_page_query 5 2) = Response 200 (Some 3, [100..<200]) \<and>
   wp_site [0..<237] (\<lambda>p. [5]) (category_page_query 5 3) = Response 200 (Some 3, [200..<237]) \<and>
   get_posts_by_category (wp_site [0..<237] (\<lambda>p. [5])) 5 =
     Some (Inr [0..<237],
           [category_page_query 5 1, category_page_query 5 2, category_page_query 5 3]) \<and>
   length [0..<237] = 237"
proof -
  let ?wp = "wp_site [0..<237] (\<lambda>p. [5::nat])"
  have p1: "?wp (category_page_query 5 1) = Response 200 (Some 3, [0..<100])"
    by (simp add: wp_site_def category_page_query_def)
  have p2: "?wp (category_page_query 5 2) = Response 200 (Some 3, [100..<200])"
    by (simp add: wp_site_def category_page_query_def)
  have p3: "?wp (category_page_query 5 3) = Response 200 (Some 3, [200..<237])"
    by (simp add: wp_site_def category_page_query_def)
  have cat: "[0..<100] @ [100..<200] @ [200..<237] = [0..<(237::nat)]"
    using upt_add_eq_append[of 0 100 137] upt_add_eq_append[of 100 200 37] by simp
  from get_posts_by_category_three_pages[of ?wp 5 "Some 3" "[0..<100]" "Some 3" "[100..<200]"
      "Some 3" "[200..<237]"] p1 p2 p3
  have "get_posts_by_category ?wp 5 =
     Some (Inr [0..<237],
           [category_page_query 5 1, category_page_query 5 2, category_page_query 5 3])"
    unfolding cat by simp
  with p1 p2 p3 show ?thesis by simp
qed

lemma fetch_posts_without_categories:
  "fetch_posts (wp_site all_posts categories_of) [] =
     Some (Inr (take 100 all_posts), [Posts_query None 100 None])"
  by (simp add: fetch_posts_def wp_site_def)

text \<open>
  C2. Without mapped categories \<^verbatim>\<open>fetch_posts\<close> sends one request, for at most 100 posts
  and no page number. On a site with 101 posts it returns the first 100: the last post is
  not fetched.
\<close>

theorem fetch_posts_first_page_only:
  "fetch_posts (wp_site [0..<101] (\<lambda>p. [])) [] =
     Some (Inr [0..<100], [Posts_query None 100 None]) \<and> 100 \<notin> set [0..<(100::nat)]"
  by (simp add: fetch_posts_without_categories)

subsection \<open>The URL mapping file\<close>

text \<open>
  C8. On a mapping file that is absent or holds a list of entries, every call of
  \<^verbatim>\<open>save_new_url_mapping\<close> writes the entries that were there, in their order, followed by
  the one new entry; a second call with the same URLs adds the same entry once more.
\<close>

theorem save_new_url_mapping_appends:
  "url_mapping_file = Absent \<or> url_mapping_file = Holds (Entries (entries_of url_mapping_file)) \<longrightarrow>
     (\<exists>saved again.
        save_new_url_mapping original_url new_url url_mapping_file = Inr (Holds (Entries saved)) \<and>
        saved = entries_of url_mapping_file @
                  [\<lparr>entry_original_url = original_url, entry_new_url = new_url\<rparr>] \<and>
        length saved = length (entries_of url_mapping_file) + 1 \<and>
        take (length (entries_of url_mapping_file)) saved = entries_of url_mapping_file \<and>
        save_new_url_mapping original_url new_url (Holds (Entries saved)) =
          Inr (Holds (Entries again)) \<and>
        again = entries_of url_mapping_file @
                  [\<lparr>entry_original_url = original_url, entry_new_url = new_url\<rparr>,
                   \<lparr>entry_original_url = original_url, entry_new_url = new_url\<rparr>])"
proof
  assume good: "url_mapping_file = Absent \<or>
    url_mapping_file = Holds (Entries (entries_of url_mapping_file))"
  then show "\<exists>saved again.
        save_new_url_mapping original_url new_url url_mapping_file = Inr (Holds (Entries saved)) \<and>
        saved = entries_of url_mapping_file @
                  [\<lparr>entry_original_url = original_url, entry_new_url = new_url\<rparr>] \<and>
        length saved = length (entries_of url_mapping_file) + 1 \<and>
        take (length (entries_of url_mapping_file)) saved = entries_of url_mapping_file \<and>
        save_new_url_mapping original_url new_url (Holds (Entries saved)) =
          Inr (Holds (Entries again)) \<and>
        again = entries_of url_mapping_file @
                  [\<lparr>entry_original_url = original_url, entry_new_url = new_url\<rparr>,
                   \<lparr>entry_original_url = original_url, entry_new_url = new_url\<rparr>]"
  proof
    assume "url_mapping_file = Absent"
    then show ?thesis by (simp add: save_new_url_mapping_def entries_of_def)
  next
    assume "url_mapping_file = Holds (Entries (entries_of url_mapping_file))"
    then obtain mapping where "url_mapping_file = Holds (Entries mapping)" by blast
    then show ?thesis by (simp add: save_new_url_mapping_def entries_of_def)
  qed
qed

theorem save_new_url_mapping_appends_witness:
  "Holds (Entries [\<lparr>entry_original_url = ''/a'', entry_new_url = ''/b''\<rparr>]) =
     Holds (Entries (entries_of (Holds (Entries [\<lparr>entry_original_url = ''/a'', entry_new_url = ''/b''\<rparr>])))) \<and>
   save_new_url_mapping ''/a'' ''/b''
       (Holds (Entries [\<lparr>entry_original_url = ''/a'', entry_new_url = ''/b''\<rparr>])) =
     Inr (Holds (Entries [\<lparr>entry_original_url = ''/a'', entry_new_url = ''/b''\<rparr>,
                          \<lparr>entry_original_url = ''/a'', entry_new_url = ''/b''\<rparr>]))"
  using save_new_url_mapping_appends[of
      "Holds (Entries [\<lparr>entry_original_url = ''/a'', entry_new_url = ''/b''\<rparr>])" "''/a''" "''/b''"]
  by (auto simp: entries_of_def)

subsection \<open>The second pass\<close>










subsection \<open>Failures during pagination\<close>

lemma fetch_category_loop_sound:
  assumes "fetch_category_loop wordpress0 c0 page0 posts0 requested0 = Some y0"
  shows "\<exists>new. snd y0 = requested0 @ new \<and> new \<noteq> [] \<and>
         (\<forall>q \<in> set (butlast new). answered_200 (wordpress0 q)) \<and>
         (isl (fst y0) \<longleftrightarrow> \<not> answered_200 (wordpress0 (last new)))"
proof (rule fetch_category_loop.raw_induct[where P = "\<lambda>wordpress c page posts requested y.
         \<exists>new. snd y = requested @ new \<and> new \<noteq> [] \<and>
         (\<forall>q \<in> set (butlast new). answered_200 (wordpress q)) \<and>
         (isl (fst y) \<longleftrightarrow> \<not> answered_200 (wordpress (last new)))", OF _ assms], goal_cases)
  case (1 loop wordpress c page posts requested y)
  note IH = "1"(1) and body = "1"(2)
  let ?q = "category_page_query c page"
  show ?case
  proof (cases "wordpress ?q")
    case Unreachable
    with body have "y = (Inl ConnectionError, requested @ [?q])" by simp
    then show ?thesis using Unreachable
      by (intro exI[of _ "[?q]"]) (simp add: answered_200_def)
  next
    case (Response status payload)
    obtain header data where payload: "payload = (header, data)" by (cases payload)
    show ?thesis
    proof (cases "status = 200")
      case False
      with body Response payload have "y = (Inl (FetchError status), requested @ [?q])"
        by simp
      then show ?thesis using Response False
        by (intro exI[of _ "[?q]"]) (simp add: answered_200_def)
    next
      case True
      then have ok: "answered_200 (wordpress ?q)" using Response by (simp add: answered_200_def)
      show ?thesis
      proof (cases "total_pages header \<le> int page")
        case True
        with body Response payload \<open>status = 200\<close>
        have "y = (Inr (posts @ data), requested @ [?q])" by simp
        then show ?thesis using ok by (intro exI[of _ "[?q]"]) simp
      next
        case False
        with body Response payload \<open>status = 200\<close>
        have "loop wordpress c (page + 1) (posts @ data) (requested @ [?q]) = Some y" by simp
        from IH[OF this] obtain new where new: "snd y = (requested @ [?q]) @ new" "new \<noteq> []"
          "\<forall>q \<in> set (butlast new). answered_200 (wordpress q)"
          "isl (fst y) \<longleftrightarrow> \<not> answered_200 (wordpress (last new))" by blast
        then show ?thesis using ok
          by (intro exI[of _ "?q # new"]) auto
      qed
    qed
  qed
qed

lemma fetch_categories_sound:
  "fetch_categories wordpress cs posts requested = Some y \<Longrightarrow>
   \<exists>new. snd y = requested @ new \<and>
         (\<forall>q \<in> set (butlast new). answered_200 (wordpress q)) \<and>
         (isl (fst y) \<longleftrightarrow> new \<noteq> [] \<and> \<not> answered_200 (wordpress (last new)))"
proof (induction cs arbitrary: posts requested)
  case Nil
  then show ?case by (intro exI[of _ "[]"]) auto
next
  case (Cons c cs)
  from Cons.prems obtain y1 where y1: "fetch_category_loop wordpress c 1 posts requested = Some y1"
    by (cases "fetch_category_loop wordpress c 1 posts requested") auto
  from fetch_category_loop_sound[OF y1] obtain n1 where n1: "snd y1 = requested @ n1" "n1 \<noteq> []"
    "\<forall>q \<in> set (butlast n1). answered_200 (wordpress q)"
    "isl (fst y1) \<longleftrightarrow> \<not> answered_200 (wordpress (last n1))" by blast
  obtain r1 reqs1 where p: "y1 = (r1, reqs1)" by (cases y1)
  show ?case
  proof (cases r1)
    case (Inl e)
    with Cons.prems y1 p have "y = y1" by simp
    with n1 show ?thesis by (intro exI[of _ n1]) simp
  next
    case (Inr posts')
    with Cons.prems y1 p have rest: "fetch_categories wordpress cs posts' reqs1 = Some y" by simp
    from Cons.IH[OF rest] obtain n2 where n2: "snd y = reqs1 @ n2"
      "\<forall>q \<in> set (butlast n2). answered_200 (wordpress q)"
      "isl (fst y) \<longleftrightarrow> n2 \<noteq> [] \<and> \<not> answered_200 (wordpress (last n2))" by blast
    have last1: "answered_200 (wordpress (last n1))" using n1(4) p Inr by simp
    have all1: "\<forall>q \<in> set n1. answered_200 (wordpress q)"
    proof
      fix q assume "q \<in> set n1"
      then have "q \<in> set (butlast n1 @ [last n1])" using n1(2) by simp
      then show "answered_200 (wordpress q)" using n1(3) last1 by auto
    qed
    show ?thesis
    proof (cases "n2 = []")
      case True
      then show ?thesis using n1 n2 p all1 last1
        by (intro exI[of _ n1]) simp
    next
      case False
      then show ?thesis using n1 n2 p all1
        by (intro exI[of _ "n1 @ n2"]) (auto simp: butlast_append)
    qed
  qed
qed

lemma fetch_posts_sound:
  assumes "fetch_posts wordpress wordpress_categories = Some (r, reqs)"
  shows "(\<forall>q \<in> set (butlast reqs). answered_200 (wordpress q)) \<and>
         (isl r \<longleftrightarrow> reqs \<noteq> [] \<and> \<not> answered_200 (wordpress (last reqs)))"
proof (cases "wordpress_categories = []")
  case True
  obtain status header data where
    "wordpress (Posts_query None 100 None) = Unreachable \<or>
     wordpress (Posts_query None 100 None) = Response status (header, data)"
    by (cases "wordpress (Posts_query None 100 None)") auto
  then show ?thesis
    using assms True by (auto simp: fetch_posts_def answered_200_def split: if_splits)
next
  case False
  with assms have "fetch_categories wordpress wordpress_categories [] [] = Some (r, reqs)"
    by (simp add: fetch_posts_def)
  from fetch_categories_sound[OF this] show ?thesis by simp
qed

lemma get_category_page_raises:
  "get_category_page wordpress c page = Inl e \<Longrightarrow> is_RequestException e"
  by (auto simp: get_category_page_def raise_for_status_def
           split: response.splits sum.splits if_splits prod.splits)

lemma get_category_page_failed:
  "request_failed (wordpress (category_page_query c page)) \<Longrightarrow>
   \<exists>e. get_category_page wordpress c page = Inl e"
  by (auto simp: get_category_page_def raise_for_status_def request_failed_def
           split: response.splits prod.splits)

lemma posts_by_category_loop_break:
  assumes "request_failed (wordpress (category_page_query c page))"
  shows "posts_by_category_loop wordpress c page posts requested =
           Some (Inr posts, requested @ [category_page_query c page])"
proof -
  from get_category_page_failed[of wordpress c page] assms
  obtain e where e: "get_category_page wordpress c page = Inl e"
    by blast
  with get_category_page_raises[of wordpress c page e] show ?thesis
    by (subst posts_by_category_loop.simps) simp
qed


lemma fetch_posts_normal_return:
  assumes "fetch_posts wordpress wordpress_categories = Some (Inr posts, reqs)"
  shows "\<forall>q \<in> set reqs. answered_200 (wordpress q)"
proof
  fix q assume q: "q \<in> set reqs"
  then have ne: "reqs \<noteq> []" by auto
  from fetch_posts_sound[OF assms] have a: "\<forall>q \<in> set (butlast reqs). answered_200 (wordpress q)"
    and b: "answered_200 (wordpress (last reqs))" using ne by simp_all
  from q ne have "q \<in> set (butlast reqs @ [last reqs])" by simp
  with a b show "answered_200 (wordpress q)" by auto
qed

lemma fetch_category_loop_run:
  assumes "page \<le> p"
    and "\<forall>k. page \<le> k \<and> k < p \<longrightarrow>
           (\<exists>header data. wordpress (category_page_query c k) = Response 200 (header, data) \<and>
                          int k < total_pages header)"
    and "\<not> answered_200 (wordpress (category_page_query c p))"
  shows "fetch_category_loop wordpress c page posts requested =
           Some (Inl (case wordpress (category_page_query c p) of
                        Unreachable \<Rightarrow> ConnectionError
                      | Response status payload \<Rightarrow> FetchError status),
                 requested @ map (category_page_query c) [page..<p + 1])"
  using assms(1,2)
proof (induction "p - page" arbitrary: page posts requested)
  case 0
  then have eq: "page = p" by simp
  show ?case
  proof (cases "wordpress (category_page_query c p)")
    case Unreachable
    then show ?thesis unfolding eq by (subst fetch_category_loop.simps) simp
  next
    case (Response status payload)
    with assms(3) have "status \<noteq> 200" by (simp add: answered_200_def)
    with Response show ?thesis unfolding eq
      by (subst fetch_category_loop.simps) (simp split: prod.split)
  qed
next
  case (Suc n)
  then have lt: "page < p" by simp
  with Suc.prems obtain header data where
    pg: "wordpress (category_page_query c page) = Response 200 (header, data)"
    "int page < total_pages header" by blast
  have ih: "fetch_category_loop wordpress c (page + 1) (posts @ data)
              (requested @ [category_page_query c page]) =
      Some (Inl (case wordpress (category_page_query c p) of
                   Unreachable \<Rightarrow> ConnectionError
                 | Response status payload \<Rightarrow> FetchError status),
            (requested @ [category_page_query c page]) @
              map (category_page_query c) [page + 1..<p + 1])"
    using Suc.hyps(2) Suc.prems lt by (intro Suc.hyps(1)) auto
  have l: "[page..<p + 1] = page # [page + 1..<p + 1]" using lt by (simp add: upt_conv_Cons)
  have "fetch_category_loop wordpress c page posts requested =
        fetch_category_loop wordpress c (page + 1) (posts @ data)
          (requested @ [category_page_query c page])"
    using pg by (subst fetch_category_loop.simps) simp
  also note ih
  finally show ?case unfolding l by simp
qed

lemma fetch_categories_append:
  "fetch_categories wordpress before posts0 requested0 = Some (Inr posts, requested) \<Longrightarrow>
   fetch_categories wordpress (before @ rest) posts0 requested0 =
     fetch_categories wordpress rest posts requested"
proof (induction before arbitrary: posts0 requested0)
  case Nil
  then show ?case by simp
next
  case (Cons c cs)
  then show ?case
    by (auto split: option.splits sum.splits prod.splits)
qed

lemma fetch_posts_raises:
  assumes "fetch_categories wordpress before [] [] = Some (Inr posts, requested)"
    and "1 \<le> p"
    and "\<forall>k. 1 \<le> k \<and> k < p \<longrightarrow>
           (\<exists>header data. wordpress (category_page_query c k) = Response 200 (header, data) \<and>
                          int k < total_pages header)"
    and "\<not> answered_200 (wordpress (category_page_query c p))"
  shows "fetch_posts wordpress (before @ c # after) =
           Some (Inl (case wordpress (category_page_query c p) of
                        Unreachable \<Rightarrow> ConnectionError
                      | Response status payload \<Rightarrow> FetchError status),
                 requested @ map (category_page_query c) [1..<p + 1])"
proof -
  have "fetch_posts wordpress (before @ c # after) =
        fetch_categories wordpress (before @ c # after) [] []"
    by (simp add: fetch_posts_def)
  also have "\<dots> = fetch_categories wordpress (c # after) posts requested"
    using assms(1) by (rule fetch_categories_append)
  also have "\<dots> = Some (Inl (case wordpress (category_page_query c p) of
                        Unreachable \<Rightarrow> ConnectionError
                      | Response status payload \<Rightarrow> FetchError status),
                 requested @ map (category_page_query c) [1..<p + 1])"
    using fetch_category_loop_run[where page = 1 and p = p and wordpress = wordpress and c = c
        and posts = posts and requested = requested] assms(2,3,4)
    by simp
  finally show ?thesis .
qed

lemma main_fetch_raises:
  assumes "load_categories_mapping categories_mapping_file = Inr loaded"
    and "loop_entries loaded = Inr mappings"
    and "fetch_posts wordpress (map wordpress_id mappings) = Some (Inl e, reqs)"
  shows "main wordpress L lib categories_mapping_file state = Some (Some e, state)"
  using assms by (simp add: main_def)

lemma posts_by_category_loop_run:
  assumes "page \<le> p"
    and "\<forall>k. page \<le> k \<and> k < p \<longrightarrow>
           \<not> request_failed (wordpress (category_page_query c k)) \<and>
           100 \<le> length (page_data (wordpress (category_page_query c k)))"
    and "request_failed (wordpress (category_page_query c p))"
  shows "posts_by_category_loop wordpress c page posts requested =
           Some (Inr (posts @ concat (map (\<lambda>k. page_data (wordpress (category_page_query c k)))
                                        [page..<p])),
                 requested @ map (category_page_query c) [page..<p + 1])"
  using assms(1,2)
proof (induction "p - page" arbitrary: page posts requested)
  case 0
  then have eq: "page = p" by simp
  show ?case unfolding eq
    using posts_by_category_loop_break[of wordpress c p posts requested] assms(3) by simp
next
  case (Suc n)
  then have lt: "page < p" by simp
  with Suc.prems have ok: "\<not> request_failed (wordpress (category_page_query c page))"
    and full: "100 \<le> length (page_data (wordpress (category_page_query c page)))" by auto
  have pg: "get_category_page wordpress c page =
      Inr (page_data (wordpress (category_page_query c page)))"
    using ok by (auto simp: get_category_page_def request_failed_def raise_for_status_def
        page_data_def split: response.splits prod.splits)
  have ih: "posts_by_category_loop wordpress c (page + 1)
              (posts @ page_data (wordpress (category_page_query c page)))
              (requested @ [category_page_query c page]) =
      Some (Inr ((posts @ page_data (wordpress (category_page_query c page))) @
                 concat (map (\<lambda>k. page_data (wordpress (category_page_query c k))) [page + 1..<p])),
            (requested @ [category_page_query c page]) @
              map (category_page_query c) [page + 1..<p + 1])"
    using Suc.hyps(2) Suc.prems lt by (intro Suc.hyps(1)) auto
  have l1: "[page..<p] = page # [page + 1..<p]" using lt by (simp add: upt_conv_Cons)
  have l2: "[page..<p + 1] = page # [page + 1..<p + 1]" using lt by (simp add: upt_conv_Cons)
  have "posts_by_category_loop wordpress c page posts requested =
        posts_by_category_loop wordpress c (page + 1)
          (posts @ page_data (wordpress (category_page_query c page)))
          (requested @ [category_page_query c page])"
    using full by (subst posts_by_category_loop.simps) (simp add: pg)
  also note ih
  finally show ?case unfolding l1 l2 by simp
qed

text \<open>
  C5. Content migrator: when the categories before \<open>c\<close> were fetched, the pages of \<open>c\<close>
  before \<open>p\<close> were answered with status 200 and more pages to come, and page \<open>p\<close> is not
  answered with status 200, then \<^verbatim>\<open>fetch_posts\<close> ends by raising (the exception of the status,
  or of the missing answer) with that request as its last, and \<^verbatim>\<open>main\<close> ends with that
  exception logged, the destination having received no request and the URL mapping file
  being as it was. Whenever \<^verbatim>\<open>fetch_posts\<close> returns posts, all its requests were answered with
  status 200. Image migrator: when the pages before \<open>p'\<close> came without failure and full, and
  the request for page \<open>p'\<close> fails (no answer, or status 4xx or 5xx), then
  \<^verbatim>\<open>get_posts_by_category\<close> ends without raising and returns the posts of the pages before
  \<open>p'\<close>, that request being its last.
\<close>

theorem pagination_failure_policies:
  "(fetch_categories wordpress before [] [] = Some (Inr posts, requested) \<and>
    1 \<le> p \<and>
    (\<forall>k. 1 \<le> k \<and> k < p \<longrightarrow>
       (\<exists>header data. wordpress (category_page_query c k) = Response 200 (header, data) \<and>
                      int k < total_pages header)) \<and>
    \<not> answered_200 (wordpress (category_page_query c p)) \<and>
    load_categories_mapping categories_mapping_file = Inr loaded \<and>
    loop_entries loaded = Inr mappings \<and>
    map wordpress_id mappings = before @ c # after
    \<longrightarrow>
    fetch_posts wordpress (before @ c # after) =
      Some (Inl (case wordpress (category_page_query c p) of
                   Unreachable \<Rightarrow> ConnectionError
                 | Response status payload \<Rightarrow> FetchError status),
            requested @ map (category_page_query c) [1..<p + 1]) \<and>
    main wordpress (traced L) lib categories_mapping_file ((w, calls), url_mapping_file) =
      Some (Some (case wordpress (category_page_query c p) of
                    Unreachable \<Rightarrow> ConnectionError
                  | Response status payload \<Rightarrow> FetchError status),
            ((w, calls), url_mapping_file))) \<and>
   (fetch_posts wordpress wordpress_categories = Some (Inr posts', reqs) \<longrightarrow>
      (\<forall>q \<in> set reqs. answered_200 (wordpress q))) \<and>
   (1 \<le> p' \<and>
    (\<forall>k. 1 \<le> k \<and> k < p' \<longrightarrow>
       \<not> request_failed (source (category_page_query c' k)) \<and>
       100 \<le> length (page_data (source (category_page_query c' k)))) \<and>
    request_failed (source (category_page_query c' p'))
    \<longrightarrow>
    get_posts_by_category source c' =
      Some (Inr (concat (map (\<lambda>k. page_data (source (category_page_query c' k))) [1..<p'])),
            map (category_page_query c') [1..<p' + 1]))"
proof (intro conjI impI)
  assume h: "fetch_categories wordpress before [] [] = Some (Inr posts, requested) \<and>
    1 \<le> p \<and>
    (\<forall>k. 1 \<le> k \<and> k < p \<longrightarrow>
       (\<exists>header data. wordpress (category_page_query c k) = Response 200 (header, data) \<and>
                      int k < total_pages header)) \<and>
    \<not> answered_200 (wordpress (category_page_query c p)) \<and>
    load_categories_mapping categories_mapping_file = Inr loaded \<and>
    loop_entries loaded = Inr mappings \<and>
    map wordpress_id mappings = before @ c # after"
  then have raises: "fetch_posts wordpress (before @ c # after) =
      Some (Inl (case wordpress (category_page_query c p) of
                   Unreachable \<Rightarrow> ConnectionError
                 | Response status payload \<Rightarrow> FetchError status),
            requested @ map (category_page_query c) [1..<p + 1])"
    using fetch_posts_raises[where wordpress = wordpress and before = before and posts = posts
        and requested = requested and p = p and c = c and after = after]
    by blast
  then show "fetch_posts wordpress (before @ c # after) =
      Some (Inl (case wordpress (category_page_query c p) of
                   Unreachable \<Rightarrow> ConnectionError
                 | Response status payload \<Rightarrow> FetchError status),
            requested @ map (category_page_query c) [1..<p + 1])" .
  from h have l: "load_categories_mapping categories_mapping_file = Inr loaded"
    and le: "loop_entries loaded = Inr mappings"
    and m: "map wordpress_id mappings = before @ c # after" by blast+
  have f: "fetch_posts wordpress (map wordpress_id mappings) =
      Some (Inl (case wordpress (category_page_query c p) of
                   Unreachable \<Rightarrow> ConnectionError
                 | Response status payload \<Rightarrow> FetchError status),
            requested @ map (category_page_query c) [1..<p + 1])"
    unfolding m by (rule raises)
  show "main wordpress (traced L) lib categories_mapping_file
        ((w, calls), url_mapping_file) =
      Some (Some (case wordpress (category_page_query c p) of
                    Unreachable \<Rightarrow> ConnectionError
                  | Response status payload \<Rightarrow> FetchError status),
            ((w, calls), url_mapping_file))"
    by (rule main_fetch_raises[OF l le f])
next
  assume "fetch_posts wordpress wordpress_categories = Some (Inr posts', reqs)"
  then show "\<forall>q \<in> set reqs. answered_200 (wordpress q)"
    by (rule fetch_posts_normal_return)
next
  assume h: "1 \<le> p' \<and>
    (\<forall>k. 1 \<le> k \<and> k < p' \<longrightarrow>
       \<not> request_failed (source (category_page_query c' k)) \<and>
       100 \<le> length (page_data (source (category_page_query c' k)))) \<and>
    request_failed (source (category_page_query c' p'))"
  show "get_posts_by_category source c' =
      Some (Inr (concat (map (\<lambda>k. page_data (source (category_page_query c' k))) [1..<p'])),
            map (category_page_query c') [1..<p' + 1])"
    unfolding get_posts_by_category_def
    using posts_by_category_loop_run[where page = 1 and p = p' and wordpress = source and c = c'
        and posts = "[]" and requested = "[]"] h
    by simp
qed

theorem pagination_failure_policies_witness:
  "fetch_categories
     (down_from 2 404 (wp_site (replicate 150 \<lparr>post_title = ''T'', post_content = ''c'',
        post_excerpt = [], post_categories = [5], post_date_gmt = None, post_link = None\<rparr>)
        post_categories)) [4] [] [] =
     Some (Inr [], [category_page_query 4 1]) \<and>
   \<not> answered_200
     (down_from 2 404 (wp_site (replicate 150 \<lparr>post_title = ''T'', post_content = ''c'',
        post_excerpt = [], post_categories = [5], post_date_gmt = None, post_link = None\<rparr>)
        post_categories) (category_page_query 5 2)) \<and>
   fetch_posts
     (down_from 2 404 (wp_site (replicate 150 \<lparr>post_title = ''T'', post_content = ''c'',
        post_excerpt = [], post_categories = [5], post_date_gmt = None, post_link = None\<rparr>)
        post_categories)) [4, 5, 7] =
     Some (Inl (FetchError 404),
           [category_page_query 4 1, category_page_query 5 1, category_page_query 5 2]) \<and>
   main
     (down_from 2 404 (wp_site (replicate 150 \<lparr>post_title = ''T'', post_content = ''c'',
        post_excerpt = [], post_categories = [5], post_date_gmt = None, post_link = None\<rparr>)
        post_categories))
     (traced content_store)
     \<lparr>generate_friendly_url = (\<lambda>title. title), format_date_for_liferay = Inr\<rparr>
     (Holds (Entries
        [\<lparr>wordpress_id = 4, wordpress_name = ''a'', liferay_id = 8, liferay_name = ''a''\<rparr>,
         \<lparr>wordpress_id = 5, wordpress_name = ''b'', liferay_id = 9, liferay_name = ''b''\<rparr>,
         \<lparr>wordpress_id = 7, wordpress_name = ''c'', liferay_id = 10, liferay_name = ''c''\<rparr>]))
     (([], []), Absent) =
     Some (Some (FetchError 404), (([], []), Absent)) \<and>
   fetch_posts
     (down_from 2 404 (wp_site (replicate 150 \<lparr>post_title = ''T'', post_content = ''c'',
        post_excerpt = [], post_categories = [5], post_date_gmt = None, post_link = None\<rparr>)
        post_categories)) [4] =
     Some (Inr [], [category_page_query 4 1]) \<and>
   answered_200
     (down_from 2 404 (wp_site (replicate 150 \<lparr>post_title = ''T'', post_content = ''c'',
        post_excerpt = [], post_categories = [5], post_date_gmt = None, post_link = None\<rparr>)
        post_categories) (category_page_query 4 1)) \<and>
   request_failed
     (down_from 2 404 (wp_site (replicate 150 \<lparr>post_title = ''T'', post_content = ''c'',
        post_excerpt = [], post_categories = [5], post_date_gmt = None, post_link = None\<rparr>)
        post_categories) (category_page_query 5 2)) \<and>
   get_posts_by_category
     (down_from 2 404 (wp_site (replicate 150 \<lparr>post_title = ''T'', post_content = ''c'',
        post_excerpt = [], post_categories = [5], post_date_gmt = None, post_link = None\<rparr>)
        post_categories)) 5 =
     Some (Inr (replicate 100 \<lparr>post_title = ''T'', post_content = ''c'', post_excerpt = [],
                  post_categories = [5], post_date_gmt = None, post_link = None\<rparr>),
           [category_page_query 5 1, category_page_query 5 2])"
proof -
  let ?p = "\<lparr>post_title = ''T'', post_content = ''c'', post_excerpt = [],
        post_categories = [5], post_date_gmt = None, post_link = None\<rparr>"
  let ?W = "down_from 2 404 (wp_site (replicate 150 ?p) post_categories)"
  let ?cm = "[\<lparr>wordpress_id = 4, wordpress_name = ''a'', liferay_id = 8, liferay_name = ''a''\<rparr>,
         \<lparr>wordpress_id = 5, wordpress_name = ''b'', liferay_id = 9, liferay_name = ''b''\<rparr>,
         \<lparr>wordpress_id = 7, wordpress_name = ''c'', liferay_id = 10, liferay_name = ''c''\<rparr>]"
  let ?lib = "\<lparr>generate_friendly_url = (\<lambda>title. title), format_date_for_liferay = Inr\<rparr>"
  have q41: "?W (category_page_query 4 1) = Response 200 (Some 0, [])"
    by (simp add: down_from_def wp_site_def category_page_query_def)
  have q51: "?W (category_page_query 5 1) = Response 200 (Some 2, replicate 100 ?p)"
    by (simp add: down_from_def wp_site_def category_page_query_def)
  have q52: "?W (category_page_query 5 2) = Response 404 (None, [])"
    by (simp add: down_from_def wp_site_def category_page_query_def)
  have loop4: "fetch_category_loop ?W 4 1 [] [] = Some (Inr [], [category_page_query 4 1])"
    by (subst fetch_category_loop.simps) (simp only: q41, simp add: total_pages_def)
  have before: "fetch_categories ?W [4] [] [] = Some (Inr [], [category_page_query 4 1])"
    using loop4 by simp
  have only4: "fetch_posts ?W [4] = Some (Inr [], [category_page_query 4 1])"
    using before by (simp add: fetch_posts_def)
  have ok41: "answered_200 (?W (category_page_query 4 1))"
    by (simp only: q41) (simp add: answered_200_def)
  have bad: "\<not> answered_200 (?W (category_page_query 5 2))"
    by (simp only: q52) (simp add: answered_200_def)
  have failed: "request_failed (?W (category_page_query 5 2))"
    by (simp only: q52) (simp add: request_failed_def)
  have cont: "\<forall>k. 1 \<le> k \<and> k < 2 \<longrightarrow>
       (\<exists>header data. ?W (category_page_query 5 k) = Response 200 (header, data) \<and>
                      int k < total_pages header)"
  proof (intro allI impI)
    fix k :: nat assume "1 \<le> k \<and> k < 2"
    then have "k = 1" by simp
    then show "\<exists>header data. ?W (category_page_query 5 k) = Response 200 (header, data) \<and>
                      int k < total_pages header"
      using q51 by (simp add: total_pages_def)
  qed
  have full: "\<forall>k. 1 \<le> k \<and> k < 2 \<longrightarrow>
       \<not> request_failed (?W (category_page_query 5 k)) \<and>
       100 \<le> length (page_data (?W (category_page_query 5 k)))"
  proof (intro allI impI)
    fix k :: nat assume "1 \<le> k \<and> k < 2"
    then have "k = 1" by simp
    then show "\<not> request_failed (?W (category_page_query 5 k)) \<and>
       100 \<le> length (page_data (?W (category_page_query 5 k)))"
      using q51 by (simp add: request_failed_def page_data_def)
  qed
  have l: "load_categories_mapping (Holds (Entries ?cm)) = Inr (Entries ?cm)"
    by (simp add: load_categories_mapping_def)
  have le: "loop_entries (Entries ?cm) = Inr ?cm"
    by (simp add: loop_entries_def)
  have m: "map wordpress_id ?cm = [4] @ 5 # [7]" by simp
  have one: "(1::nat) \<le> 2" by simp
  have u: "[1..<2 + 1] = [1, 2::nat]" "[1..<2] = [1::nat]" by (simp_all add: upt_rec)
  note inst = pagination_failure_policies[where wordpress = ?W and before = "[4]" and posts = "[]"
      and requested = "[category_page_query 4 1]" and p = 2 and c = 5 and after = "[7]"
      and categories_mapping_file = "Holds (Entries ?cm)" and loaded = "Entries ?cm"
      and mappings = ?cm and L = content_store and lib = ?lib and w = "[]" and calls = "[]"
      and url_mapping_file = Absent and wordpress_categories = "[4]" and posts' = "[]"
      and reqs = "[category_page_query 4 1]" and source = ?W and c' = 5 and p' = 2]
  from inst before one cont bad l le m
  have a: "fetch_posts ?W ([4] @ 5 # [7]) =
      Some (Inl (case ?W (category_page_query 5 2) of
                   Unreachable \<Rightarrow> ConnectionError
                 | Response status payload \<Rightarrow> FetchError status),
            [category_page_query 4 1] @ map (category_page_query 5) [1..<2 + 1])"
    and b: "main ?W (traced content_store) ?lib (Holds (Entries ?cm)) (([], []), Absent) =
      Some (Some (case ?W (category_page_query 5 2) of
                    Unreachable \<Rightarrow> ConnectionError
                  | Response status payload \<Rightarrow> FetchError status),
            (([], []), Absent))"
    by blast+
  from inst one full failed
  have c: "get_posts_by_category ?W 5 =
      Some (Inr (concat (map (\<lambda>k. page_data (?W (category_page_query 5 k))) [1..<2])),
            map (category_page_query 5) [1..<2 + 1])"
    by blast
  have a': "fetch_posts ?W [4, 5, 7] = Some (Inl (FetchError 404),
           [category_page_query 4 1, category_page_query 5 1, category_page_query 5 2])"
    using a unfolding u by (simp only: q52) simp
  have b': "main ?W (traced content_store) ?lib (Holds (Entries ?cm)) (([], []), Absent) =
      Some (Some (FetchError 404), (([], []), Absent))"
    using b by (simp only: q52) simp
  have c': "get_posts_by_category ?W 5 =
      Some (Inr (replicate 100 ?p), [category_page_query 5 1, category_page_query 5 2])"
    using c unfolding u using q51 by (simp add: page_data_def)
  show ?thesis
    using before bad a' b' only4 ok41 failed c' by blast
qed

text \<open>Mapping files that hold \<^verbatim>\<open>{}\<close>: the category list is empty, so the posts are
  fetched without categories; the content of the post is created, and the \<^verbatim>\<open>append\<close> of
  its URL mapping raises.\<close>

lemma main_with_empty_object_files:
  "main (\<lambda>q. Response 200 (None, [\<lparr>post_title = ''T'', post_content = ''c'', post_excerpt = [],
        post_categories = [], post_date_gmt = None, post_link = None\<rparr>])) (traced content_store)
     \<lparr>generate_friendly_url = (\<lambda>title. title), format_date_for_liferay = Inr\<rparr>
     (Holds Empty_object) (([], []), Holds Empty_object) =
   Some (Some AttributeError,
     (([\<lparr>sc_id = 1, sc_title = ''T'', sc_friendly_url = ''T'', sc_date_created = None,
         sc_category_ids = [],
         sc_fields = [\<lparr>field_name = ''TextoMateria'', field_data = ''c''\<rparr>]\<rparr>],
       [Post_structured_content
          \<lparr>payload_title = ''T'', payload_friendly_url = ''T'', payload_date_created = None,
           payload_category_ids = [],
           payload_fields = [\<lparr>field_name = ''TextoMateria'', field_data = ''c''\<rparr>]\<rparr>]),
      Holds Empty_object))"
  by code_simp

end
